theory Spec2Isabelle
  imports Main "HOL-Library.Word"
begin

section \<open>JavaScript strings\<close>

text \<open>
  A JavaScript string is a sequence of 16-bit code units. The regular expression of
  \<open>extractUnicodes\<close> has no \<open>u\<close> flag, so it works on code units, and \<open>text.length\<close>
  counts code units.
\<close>

type_synonym code_unit = "16 word"
type_synonym jsstring = "code_unit list"

definition js :: "string \<Rightarrow> jsstring" where
  "js s = map (\<lambda>c. of_nat (of_char c)) s"

datatype error = RangeError | ENOENT | ENOTDIR | EISDIR | EEXIST | ENOTEMPTY | EACCES | ELOOP
  | EngineFailure

subsection \<open>\<open>parseInt(match[1], 16)\<close> and \<open>String.fromCodePoint\<close>\<close>

definition hex_digit :: "code_unit \<Rightarrow> bool" where
  "hex_digit c \<longleftrightarrow> (0x30 \<le> c \<and> c \<le> 0x39) \<or> (0x61 \<le> c \<and> c \<le> 0x66) \<or> (0x41 \<le> c \<and> c \<le> 0x46)"

definition digit_value :: "code_unit \<Rightarrow> nat" where
  "digit_value c = (if c \<le> 0x39 then unat c - 0x30
                    else if 0x61 \<le> c then unat c - 0x61 + 10
                    else unat c - 0x41 + 10)"

text \<open>
  \<open>parseInt\<close> is only applied to capture group 1, a non-empty run of hex digits. Its
  result is a double: exact below \<open>2^53\<close>, rounded above, where it stays far beyond
  \<open>0x10FFFF\<close>, the only bound the script compares it with. The model keeps the exact
  natural number.
\<close>

definition parseInt16 :: "jsstring \<Rightarrow> nat" where
  "parseInt16 h = foldl (\<lambda>a c. 16 * a + digit_value c) 0 h"

definition utf16 :: "nat \<Rightarrow> jsstring" where
  "utf16 cp = (if cp \<le> 0xFFFF then [of_nat cp]
               else [0xD800 + of_nat ((cp - 0x10000) div 0x400),
                     0xDC00 + of_nat ((cp - 0x10000) mod 0x400)])"

definition fromCodePoint :: "nat \<Rightarrow> error + jsstring" where
  "fromCodePoint cp = (if cp > 0x10FFFF then Inl RangeError else Inr (utf16 cp))"

text \<open>\<open>c.codePointAt(0)\<close>, used by the script to print the characters it found.\<close>

definition codePointAt0 :: "jsstring \<Rightarrow> nat option" where
  "codePointAt0 s = (case s of
       [] \<Rightarrow> None
     | a # r \<Rightarrow>
         if 0xD800 \<le> a \<and> a \<le> 0xDBFF then
           (case r of
              [] \<Rightarrow> Some (unat a)
            | b # _ \<Rightarrow>
                if 0xDC00 \<le> b \<and> b \<le> 0xDFFF
                then Some ((unat a - 0xD800) * 0x400 + (unat b - 0xDC00) + 0x10000)
                else Some (unat a))
         else Some (unat a))"

subsection \<open>The regular expression \<open>/\\u\{([0-9a-fA-F]+)\}/g\<close>\<close>

text \<open>
  \<open>match_at s\<close> matches the pattern at the start of \<open>s\<close>: a backslash, \<open>u\<close>, \<open>{\<close>, one
  or more hex digits (greedy), \<open>}\<close>. It returns capture group 1 and the length of the
  match. The closing brace is not a hex digit, so the greedy run is the only candidate.
\<close>

definition match_at :: "jsstring \<Rightarrow> (jsstring \<times> nat) option" where
  "match_at s = (case s of
       a # b # c # r \<Rightarrow>
         if a = 0x5C \<and> b = 0x75 \<and> c = 0x7B then
           (let h = takeWhile hex_digit r in
            if h \<noteq> [] \<and> take 1 (dropWhile hex_digit r) = [0x7D]
            then Some (h, length h + 4) else None)
         else None
     | _ \<Rightarrow> None)"

text \<open>The leftmost match in \<open>s\<close>, where \<open>s\<close> starts at index \<open>i\<close> of the subject.\<close>

fun search :: "jsstring \<Rightarrow> nat \<Rightarrow> (jsstring \<times> nat) option" where
  "search [] i = None"
| "search (c # s) i =
     (case match_at (c # s) of
        Some (h, n) \<Rightarrow> Some (h, i + n)
      | None \<Rightarrow> search s (Suc i))"

text \<open>
  \<open>regex.exec(content)\<close> of a global regular expression: the search starts at
  \<open>lastIndex\<close>; a match sets \<open>lastIndex\<close> to its end, a failure resets it to 0. The
  result is capture group 1 (or \<open>null\<close>) and the new \<open>lastIndex\<close>.
\<close>

definition regex_exec :: "jsstring \<Rightarrow> nat \<Rightarrow> jsstring option \<times> nat" where
  "regex_exec content lastIndex =
     (if lastIndex > length content then (None, 0)
      else case search (drop lastIndex content) lastIndex of
             None \<Rightarrow> (None, 0)
           | Some (h, e) \<Rightarrow> (Some h, e))"

section \<open>Code-point extraction\<close>

text \<open>A \<open>Set\<close> of strings iterates in insertion order; \<open>add\<close> ignores a member.\<close>

definition Set_add :: "jsstring \<Rightarrow> jsstring list \<Rightarrow> jsstring list" where
  "Set_add x xs = (if x \<in> set xs then xs else xs @ [x])"

lemma match_at_length: "match_at s = Some (h, n) \<Longrightarrow> n = length h + 4"
  unfolding match_at_def by (auto simp: Let_def split: list.splits if_splits)

lemma search_end: "search s i = Some (h, e) \<Longrightarrow> i < e"
proof (induction s arbitrary: i)
  case Nil
  then show ?case by simp
next
  case (Cons c s)
  show ?case
  proof (cases "match_at (c # s)")
    case None
    with Cons.prems have "search s (Suc i) = Some (h, e)" by simp
    then have "Suc i < e" by (rule Cons.IH)
    then show ?thesis by simp
  next
    case (Some m)
    obtain h' n where m: "m = (h', n)" by (cases m)
    with Some have "n = length h' + 4" by (simp add: match_at_length)
    with Some m Cons.prems show ?thesis by simp
  qed
qed

lemma regex_exec_advances:
  "regex_exec content i = (Some h, e) \<Longrightarrow> i \<le> length content \<and> i < e"
  by (auto simp: regex_exec_def split: if_splits option.splits dest: search_end)

text \<open>
  The \<open>while ((match = regex.exec(content)) !== null)\<close> loop. Its state is
  \<open>regex.lastIndex\<close> and the set \<open>unicodes\<close>; \<open>String.fromCodePoint\<close> may throw.
\<close>

function scan :: "jsstring \<Rightarrow> nat \<Rightarrow> jsstring list \<Rightarrow> error + (nat \<times> jsstring list)" where
  "scan content lastIndex unicodes =
     (case regex_exec content lastIndex of
        (None, li) \<Rightarrow> Inr (li, unicodes)
      | (Some h, li) \<Rightarrow>
          (case fromCodePoint (parseInt16 h) of
             Inl e \<Rightarrow> Inl e
           | Inr char \<Rightarrow> scan content li (Set_add char unicodes)))"
  by pat_completeness auto
termination
proof (relation "measure (\<lambda>(content, i, us). Suc (length content) - i)", goal_cases)
  case 1
  show ?case by simp
next
  case (2 content lastIndex unicodes x1 x2 h char)
  from 2 have "regex_exec content lastIndex = (Some h, x2)" by simp
  then have "lastIndex \<le> length content \<and> lastIndex < x2" by (rule regex_exec_advances)
  then show ?case by auto
qed

text \<open>
  \<open>files.forEach\<close>: the regular expression object, hence \<open>lastIndex\<close>, and the set are
  shared by all files. \<open>read\<close> is \<open>fs.readFileSync(file, 'utf8')\<close>.
\<close>

fun scan_files :: "('p \<Rightarrow> error + jsstring) \<Rightarrow> 'p list \<Rightarrow> nat \<Rightarrow> jsstring list
    \<Rightarrow> error + (nat \<times> jsstring list)" where
  "scan_files read [] lastIndex unicodes = Inr (lastIndex, unicodes)"
| "scan_files read (file # files) lastIndex unicodes =
     (case read file of
        Inl e \<Rightarrow> Inl e
      | Inr content \<Rightarrow>
          (case scan content lastIndex unicodes of
             Inl e \<Rightarrow> Inl e
           | Inr (li, us) \<Rightarrow> scan_files read files li us))"

text \<open>The set \<open>unicodes\<close> when \<open>forEach\<close> has returned.\<close>

definition collectUnicodes :: "('p \<Rightarrow> error + jsstring) \<Rightarrow> 'p list \<Rightarrow> error + jsstring list" where
  "collectUnicodes read files =
     (case scan_files read files 0 [] of Inl e \<Rightarrow> Inl e | Inr (li, us) \<Rightarrow> Inr us)"

text \<open>\<open>Array.from(unicodes).join('')\<close>\<close>

definition extractUnicodes :: "('p \<Rightarrow> error + jsstring) \<Rightarrow> 'p list \<Rightarrow> error + jsstring" where
  "extractUnicodes read files =
     (case collectUnicodes read files of Inl e \<Rightarrow> Inl e | Inr us \<Rightarrow> Inr (concat us))"

section \<open>The source tree\<close>

text \<open>
  What the walk meets below \<open>SRC_DIR\<close>. A directory is the list of its entries, in the
  order \<open>fs.readdirSync\<close> reports them; for each entry \<open>fs.statSync\<close> either throws or
  tells whether it is a directory.
  \<^item> \<open>File content\<close>: not a directory; \<open>fs.readFileSync(file, 'utf8')\<close> returns \<open>content\<close>.
  \<^item> \<open>NoRead e\<close>: not a directory; \<open>fs.readFileSync\<close> throws \<open>e\<close> (no permission).
  \<^item> \<open>Dir entries\<close>: a directory that \<open>fs.readdirSync\<close> lists.
  \<^item> \<open>NoList e\<close>: a directory for which \<open>fs.readdirSync\<close> throws \<open>e\<close> (no permission).
  \<^item> \<open>NoStat e\<close>: \<open>fs.statSync\<close> throws \<open>e\<close>: a symbolic link to nothing (\<open>ENOENT\<close>),
    a chain of links that does not end (\<open>ELOOP\<close>), a refused inspection (\<open>EACCES\<close>).
  \<open>fs.statSync\<close> follows symbolic links, so a link to a file or to a directory is the
  node it leads to. The tree is finite: a walk through a cycle of links is cut by the
  operating system, and the entry where it is cut is a \<open>NoStat ELOOP\<close>.
\<close>

type_synonym name = jsstring

datatype node =
    File jsstring
  | NoRead error
  | Dir "(name \<times> node) list"
  | NoList error
  | NoStat error

text \<open>
  A path is the list of the entry names that lead from the root of a walk to a node. Both
  \<open>dirPath + "/" + file\<close> and \<open>path.join(dirPath, "/", file)\<close> denote the entry
  \<open>file\<close> of the directory \<open>dirPath\<close>.
\<close>

type_synonym path = "name list"

fun lookup :: "(name \<times> node) list \<Rightarrow> path \<Rightarrow> node option" where
  "lookup entries [] = None"
| "lookup entries [file] = map_of entries file"
| "lookup entries (file # p) =
     (case map_of entries file of Some (Dir sub) \<Rightarrow> lookup sub p | _ \<Rightarrow> None)"

definition readFileSync :: "node option \<Rightarrow> path \<Rightarrow> error + jsstring" where
  "readFileSync root p =
     (case root of
        Some (Dir entries) \<Rightarrow>
          (case lookup entries p of
             Some (File content) \<Rightarrow> Inr content
           | Some (NoRead e) \<Rightarrow> Inl e
           | Some (Dir sub) \<Rightarrow> Inl EISDIR
           | Some (NoList e) \<Rightarrow> Inl EISDIR
           | Some (NoStat e) \<Rightarrow> Inl e
           | None \<Rightarrow> Inl ENOENT)
      | _ \<Rightarrow> Inl ENOENT)"

section \<open>File discovery\<close>

definition endsWith :: "jsstring \<Rightarrow> jsstring \<Rightarrow> bool" where
  "endsWith s suffix \<longleftrightarrow>
     length suffix \<le> length s \<and> drop (length s - length suffix) s = suffix"

text \<open>
  \<open>getAllFiles(dirPath, arrayOfFiles)\<close>: the second argument of the model is the
  listing of \<open>dirPath\<close> that \<open>files.forEach\<close> runs through. An exception of
  \<open>fs.statSync\<close>, or of \<open>fs.readdirSync\<close> in a recursive call, ends the whole walk.
\<close>

fun getAllFiles :: "path \<Rightarrow> (name \<times> node) list \<Rightarrow> path list \<Rightarrow> error + path list" where
  "getAllFiles dirPath [] arrayOfFiles = Inr arrayOfFiles"
| "getAllFiles dirPath ((file, NoStat e) # files) arrayOfFiles = Inl e"
| "getAllFiles dirPath ((file, NoList e) # files) arrayOfFiles = Inl e"
| "getAllFiles dirPath ((file, Dir entries) # files) arrayOfFiles =
     (case getAllFiles (dirPath @ [file]) entries arrayOfFiles of
        Inl e \<Rightarrow> Inl e
      | Inr found \<Rightarrow> getAllFiles dirPath files found)"
| "getAllFiles dirPath ((file, File content) # files) arrayOfFiles =
     getAllFiles dirPath files
       (if endsWith file (js ''.slint'') then arrayOfFiles @ [dirPath @ [file]]
        else arrayOfFiles)"
| "getAllFiles dirPath ((file, NoRead e) # files) arrayOfFiles =
     getAllFiles dirPath files
       (if endsWith file (js ''.slint'') then arrayOfFiles @ [dirPath @ [file]]
        else arrayOfFiles)"

text \<open>\<open>getAllFiles(SRC_DIR)\<close>: \<open>fs.readdirSync\<close> throws unless the root is a directory it can list.\<close>

definition getAllFiles_root :: "node option \<Rightarrow> error + path list" where
  "getAllFiles_root root =
     (case root of
        None \<Rightarrow> Inl ENOENT
      | Some (File content) \<Rightarrow> Inl ENOTDIR
      | Some (NoRead e) \<Rightarrow> Inl ENOTDIR
      | Some (NoStat e) \<Rightarrow> Inl e
      | Some (NoList e) \<Rightarrow> Inl e
      | Some (Dir entries) \<Rightarrow> getAllFiles [] entries [])"

section \<open>The run of the script\<close>

text \<open>
  The four places the script touches: \<open>SRC_DIR\<close> (\<open>../../src\<close>), \<open>FONT_SOURCE\<close>
  (\<open>segoeicons.ttf\<close> beside the script), \<open>TEMP_DIR\<close> (\<open>../../build/temp_font\<close>) and the
  published file (\<open>icons.ttf\<close> beside the script). They are four different places, none
  inside another.

  What stands at \<open>FONT_SOURCE\<close>, at \<open>TEMP_DIR\<close> or at the published path is nothing, a
  regular file or a directory. The script never reads these files: of a regular file only
  the length of the content is observed (\<open>fs.statSync(...).size\<close>).
\<close>

datatype item = Regular jsstring | Directory "(name \<times> item) list"

record world =
  src_dir :: "node option"
  font_source :: "item option"
  temp_dir :: "item option"
  target_file :: "item option"

definition existsSync :: "item option \<Rightarrow> bool" where
  "existsSync n \<longleftrightarrow> n \<noteq> None"

datatype location = SRC_DIR | FONT_SOURCE | TEMP_DIR | TARGET_FILE

text \<open>
  The file-system calls of the publishing steps. Besides the failures that follow from
  the state of the four places, the operating system may refuse any of them (permissions,
  a locked file, a full disk): \<open>denied\<close> is the set of calls it refuses.
\<close>

datatype io_op = MkdirTemp | UnlinkTarget | CopyFile | UnlinkGenerated | RmdirTemp
  | StatSource | StatTarget

definition generated_name :: name where
  "generated_name = js ''segoeicons.ttf''"

text \<open>\<open>generatedFile = path.join(TEMP_DIR, 'segoeicons.ttf')\<close>\<close>

definition generatedFile :: "world \<Rightarrow> item option" where
  "generatedFile w =
     (case temp_dir w of
        Some (Directory entries) \<Rightarrow> map_of entries generated_name
      | _ \<Rightarrow> None)"

definition mkdirSync_temp :: "io_op set \<Rightarrow> world \<Rightarrow> error + world" where
  "mkdirSync_temp denied w =
     (if MkdirTemp \<in> denied then Inl EACCES
      else case temp_dir w of
             None \<Rightarrow> Inr (w\<lparr>temp_dir := Some (Directory [])\<rparr>)
           | Some (Directory entries) \<Rightarrow> Inr w
           | Some (Regular content) \<Rightarrow> Inl EEXIST)"

definition unlinkSync_target :: "io_op set \<Rightarrow> world \<Rightarrow> error + world" where
  "unlinkSync_target denied w =
     (if UnlinkTarget \<in> denied then Inl EACCES
      else case target_file w of
             None \<Rightarrow> Inl ENOENT
           | Some (Directory entries) \<Rightarrow> Inl EISDIR
           | Some (Regular content) \<Rightarrow> Inr (w\<lparr>target_file := None\<rparr>))"

text \<open>A failed copy leaves no destination file behind.\<close>

definition copyFileSync :: "io_op set \<Rightarrow> world \<Rightarrow> error + world" where
  "copyFileSync denied w =
     (if CopyFile \<in> denied then Inl EACCES
      else case generatedFile w of
             None \<Rightarrow> Inl ENOENT
           | Some (Directory entries) \<Rightarrow> Inl EISDIR
           | Some (Regular content) \<Rightarrow>
               (case target_file w of
                  Some (Directory entries) \<Rightarrow> Inl EISDIR
                | _ \<Rightarrow> Inr (w\<lparr>target_file := Some (Regular content)\<rparr>)))"

definition unlinkSync_generated :: "io_op set \<Rightarrow> world \<Rightarrow> error + world" where
  "unlinkSync_generated denied w =
     (if UnlinkGenerated \<in> denied then Inl EACCES
      else case generatedFile w of
             None \<Rightarrow> Inl ENOENT
           | Some (Directory sub) \<Rightarrow> Inl EISDIR
           | Some (Regular content) \<Rightarrow>
               (case temp_dir w of
                  Some (Directory entries) \<Rightarrow>
                    Inr (w\<lparr>temp_dir :=
                      Some (Directory (filter (\<lambda>(n, x). n \<noteq> generated_name) entries))\<rparr>)
                | _ \<Rightarrow> Inl ENOENT))"

definition rmdirSync_temp :: "io_op set \<Rightarrow> world \<Rightarrow> error + world" where
  "rmdirSync_temp denied w =
     (if RmdirTemp \<in> denied then Inl EACCES
      else case temp_dir w of
             None \<Rightarrow> Inl ENOENT
           | Some (Regular content) \<Rightarrow> Inl ENOTDIR
           | Some (Directory entries) \<Rightarrow>
               (if entries = [] then Inr (w\<lparr>temp_dir := None\<rparr>) else Inl ENOTEMPTY))"

text \<open>
  \<open>fs.statSync(...).size\<close>. The size the file system reports for a directory is not
  modelled; it is only ever printed.
\<close>

fun node_size :: "item \<Rightarrow> nat" where
  "node_size (Regular content) = length content"
| "node_size (Directory entries) = 0"

definition statSync_size :: "io_op set \<Rightarrow> io_op \<Rightarrow> item option \<Rightarrow> error + nat" where
  "statSync_size denied call n =
     (if call \<in> denied then Inl EACCES
      else case n of None \<Rightarrow> Inl ENOENT | Some x \<Rightarrow> Inr (node_size x))"

subsection \<open>Console and exit status\<close>

datatype message =
    SourceFontNotFound
  | Scanning
  | FoundFiles nat
  | Extracting
  | FoundCharacters nat
  | NoIconsFound
  | Subsetting
  | ErrorDuringSubsetting error
  | SuccessfullyGenerated
  | OriginalSize nat
  | NewSize nat
  | Reduction
  | ErrorMovingFile error
  | ExpectedOutputNotFound

datatype console = Log message | Warn message | Error message

text \<open>
  The process ends by \<open>process.exit(code)\<close>, by running to completion (status 0) or by an
  exception nobody catches (status 1).
\<close>

datatype outcome = Exit nat | Uncaught error

fun exit_code :: "outcome \<Rightarrow> nat" where
  "exit_code (Exit n) = n"
| "exit_code (Uncaught e) = 1"

subsection \<open>Up to the subsetting step\<close>

text \<open>\<open>if (!fs.existsSync(TEMP_DIR)) fs.mkdirSync(TEMP_DIR, { recursive: true })\<close>\<close>

definition ensure_temp_dir :: "io_op set \<Rightarrow> world \<Rightarrow> error + world" where
  "ensure_temp_dir denied w =
     (if \<not> existsSync (temp_dir w) then mkdirSync_temp denied w else Inr w)"

text \<open>
  The top level of the script before \<open>new Fontmin()\<close>: it either ends the process, or
  reaches the subsetting step with the extracted text and the temporary directory in place.
\<close>

definition prepare :: "io_op set \<Rightarrow> world
    \<Rightarrow> (outcome \<times> console list) + (jsstring \<times> world \<times> console list)" where
  "prepare denied w =
     (if \<not> existsSync (font_source w) then Inl (Exit 1, [Error SourceFontNotFound])
      else case getAllFiles_root (src_dir w) of
        Inl e \<Rightarrow> Inl (Uncaught e, [Log Scanning])
      | Inr slintFiles \<Rightarrow>
          (case extractUnicodes (readFileSync (src_dir w)) slintFiles of
             Inl e \<Rightarrow>
               Inl (Uncaught e, [Log Scanning, Log (FoundFiles (length slintFiles)), Log Extracting])
           | Inr text \<Rightarrow>
               (let out = [Log Scanning, Log (FoundFiles (length slintFiles)), Log Extracting,
                           Log (FoundCharacters (length text))]
                in if length text = 0 then Inl (Exit 0, out @ [Warn NoIconsFound])
                   else case ensure_temp_dir denied w of
                          Inl e \<Rightarrow> Inl (Uncaught e, out @ [Log Subsetting])
                        | Inr w1 \<Rightarrow> Inr (text, w1, out @ [Log Subsetting]))))"

subsection \<open>The subsetting engine\<close>

text \<open>
  Fontmin is not part of the script. The model takes it as a parameter: given its
  configuration and the world, it reports an error or not and leaves a world behind.
  \<open>fontmin.run\<close> is taken to call its callback once, after the engine has finished.
\<close>

record engine_config =
  cfg_src :: location
  cfg_text :: jsstring
  cfg_hinting :: bool
  cfg_dest :: location

type_synonym engine = "engine_config \<Rightarrow> world \<Rightarrow> error option \<times> world"

text \<open>\<open>new Fontmin().src(FONT_SOURCE).use(Fontmin.glyph({text: text, hinting: false})).dest(TEMP_DIR)\<close>\<close>

definition fontmin_config :: "jsstring \<Rightarrow> engine_config" where
  "fontmin_config text =
     \<lparr>cfg_src = FONT_SOURCE, cfg_text = text, cfg_hinting = False, cfg_dest = TEMP_DIR\<rparr>"

subsection \<open>The callback of \<open>fontmin.run\<close>\<close>

text \<open>\<open>if (fs.existsSync(targetFile)) fs.unlinkSync(targetFile)\<close>\<close>

definition clear_target :: "io_op set \<Rightarrow> world \<Rightarrow> error + world" where
  "clear_target denied w =
     (if existsSync (target_file w) then unlinkSync_target denied w else Inr w)"

text \<open>
  The body of the \<open>try\<close>: the exception thrown (if any), the world reached and what was
  printed.
\<close>

definition try_body :: "io_op set \<Rightarrow> world \<Rightarrow> error option \<times> world \<times> console list" where
  "try_body denied w =
     (case clear_target denied w of
        Inl e \<Rightarrow> (Some e, w, [])
      | Inr w1 \<Rightarrow>
     (case copyFileSync denied w1 of
        Inl e \<Rightarrow> (Some e, w1, [])
      | Inr w2 \<Rightarrow>
     (case unlinkSync_generated denied w2 of
        Inl e \<Rightarrow> (Some e, w2, [Log SuccessfullyGenerated])
      | Inr w3 \<Rightarrow>
     (case rmdirSync_temp denied w3 of
        Inl e \<Rightarrow> (Some e, w3, [Log SuccessfullyGenerated])
      | Inr w4 \<Rightarrow>
     (case statSync_size denied StatSource (font_source w4) of
        Inl e \<Rightarrow> (Some e, w4, [Log SuccessfullyGenerated])
      | Inr originalSize \<Rightarrow>
     (case statSync_size denied StatTarget (target_file w4) of
        Inl e \<Rightarrow> (Some e, w4, [Log SuccessfullyGenerated])
      | Inr newSize \<Rightarrow>
          (None, w4, [Log SuccessfullyGenerated, Log (OriginalSize originalSize),
                      Log (NewSize newSize), Log Reduction])))))))"

definition callback :: "io_op set \<Rightarrow> error option \<Rightarrow> world \<Rightarrow> outcome \<times> world \<times> console list" where
  "callback denied err w =
     (case err of
        Some e \<Rightarrow> (Exit 1, w, [Error (ErrorDuringSubsetting e)])
      | None \<Rightarrow>
          if existsSync (generatedFile w) then
            (case try_body denied w of
               (None, w', out) \<Rightarrow> (Exit 0, w', out)
             | (Some e, w', out) \<Rightarrow> (Exit 0, w', out @ [Error (ErrorMovingFile e)]))
          else (Exit 0, w, [Error ExpectedOutputNotFound]))"

subsection \<open>The whole run\<close>

record run_result =
  outcome :: outcome
  final :: world
  console :: "console list"
  engine_calls :: "engine_config list"

definition run :: "engine \<Rightarrow> io_op set \<Rightarrow> world \<Rightarrow> run_result" where
  "run engine denied w =
     (case prepare denied w of
        Inl (status, out) \<Rightarrow>
          \<lparr>outcome = status, final = w, console = out, engine_calls = []\<rparr>
      | Inr (text, w1, out) \<Rightarrow>
          (case engine (fontmin_config text) w1 of
             (err, w2) \<Rightarrow>
               (case callback denied err w2 of
                  (status, w3, out') \<Rightarrow>
                    \<lparr>outcome = status, final = w3, console = out @ out',
                     engine_calls = [fontmin_config text]\<rparr>)))"

section \<open>Reference notions\<close>

subsection \<open>Escape sequences in a text\<close>

text \<open>
  A well-formed escape is a backslash, \<open>u\<close>, \<open>{\<close>, one or more hex digits and \<open>}\<close>.
  \<open>escapes content\<close> is the set of the hex-digit strings whose escape occurs somewhere in
  \<open>content\<close>.
\<close>

definition escape :: "jsstring \<Rightarrow> jsstring" where
  "escape h = [0x5C, 0x75, 0x7B] @ h @ [0x7D]"

definition well_formed :: "jsstring \<Rightarrow> bool" where
  "well_formed h \<longleftrightarrow> h \<noteq> [] \<and> list_all hex_digit h"

definition escapes :: "jsstring \<Rightarrow> jsstring set" where
  "escapes content = {h. well_formed h \<and> (\<exists>pre post. content = pre @ escape h @ post)}"

text \<open>
  The successive matches of the regular expression in a text, from left to right, and
  the set they leave when decoded and added one after the other. Both are shown below to
  describe what the loops of \<open>extractUnicodes\<close> compute.
\<close>

function matches :: "jsstring \<Rightarrow> jsstring list" where
  "matches [] = []"
| "matches (c # s) =
     (case match_at (c # s) of
        Some (h, n) \<Rightarrow> h # matches (drop n (c # s))
      | None \<Rightarrow> matches s)"
  by pat_completeness auto
termination
proof (relation "measure length", goal_cases)
  case 1
  show ?case by simp
next
  case (2 c s)
  show ?case by simp
next
  case (3 c s m h n)
  then have "n = length h + 4" by (simp add: match_at_length)
  then show ?case by simp
qed

fun add_all :: "jsstring list \<Rightarrow> jsstring list \<Rightarrow> error + jsstring list" where
  "add_all [] us = Inr us"
| "add_all (h # hs) us =
     (case fromCodePoint (parseInt16 h) of
        Inl e \<Rightarrow> Inl e
      | Inr char \<Rightarrow> add_all hs (Set_add char us))"

text \<open>The whole \<open>forEach\<close> of \<open>extractUnicodes\<close>, file after file.\<close>

fun collect :: "('p \<Rightarrow> error + jsstring) \<Rightarrow> 'p list \<Rightarrow> jsstring list \<Rightarrow> error + jsstring list" where
  "collect read [] us = Inr us"
| "collect read (p # ps) us =
     (case read p of
        Inl e \<Rightarrow> Inl e
      | Inr content \<Rightarrow>
          (case add_all (matches content) us of
             Inl e \<Rightarrow> Inl e
           | Inr us' \<Rightarrow> collect read ps us'))"

subsection \<open>Files below a directory\<close>

text \<open>
  \<open>file_at entries p\<close>: the path \<open>p\<close> leads from a directory with the listing
  \<open>entries\<close> to a file (an entry that is not a directory), through directories only.
\<close>

inductive file_at :: "(name \<times> node) list \<Rightarrow> path \<Rightarrow> bool" where
  here: "(file, File content) \<in> set entries \<Longrightarrow> file_at entries [file]"
| locked: "(file, NoRead e) \<in> set entries \<Longrightarrow> file_at entries [file]"
| below: "(file, Dir sub) \<in> set entries \<Longrightarrow> file_at sub p \<Longrightarrow> file_at entries (file # p)"

definition slint_files :: "(name \<times> node) list \<Rightarrow> path set" where
  "slint_files entries = {p. file_at entries p \<and> endsWith (last p) (js ''.slint'')}"

text \<open>
  \<open>blocked entries\<close>: somewhere in the tree there is an entry that \<open>fs.statSync\<close> refuses
  or a directory that \<open>fs.readdirSync\<close> refuses. A tree is inspectable when it is not
  blocked.
\<close>

inductive blocked :: "(name \<times> node) list \<Rightarrow> bool" where
  no_stat: "(file, NoStat e) \<in> set entries \<Longrightarrow> blocked entries"
| no_list: "(file, NoList e) \<in> set entries \<Longrightarrow> blocked entries"
| inside: "(file, Dir sub) \<in> set entries \<Longrightarrow> blocked sub \<Longrightarrow> blocked entries"

definition inspectable :: "(name \<times> node) list \<Rightarrow> bool" where
  "inspectable entries \<longleftrightarrow> \<not> blocked entries"

text \<open>No directory of the tree lists a name twice.\<close>

fun distinct_names :: "(name \<times> node) list \<Rightarrow> bool" where
  "distinct_names [] = True"
| "distinct_names ((file, Dir sub) # entries) =
     (file \<notin> fst ` set entries \<and> distinct_names sub \<and> distinct_names entries)"
| "distinct_names ((file, x) # entries) =
     (file \<notin> fst ` set entries \<and> distinct_names entries)"

section \<open>Sample inputs\<close>

text \<open>
  Concrete texts, directory trees, worlds and engines on which the properties below are
  evaluated.
\<close>

definition sample_contents :: "nat \<Rightarrow> jsstring" where
  "sample_contents p =
     (if p = 0 then js ''x'' @ escape (js ''E700'') @ js ''y'' @ escape (js ''e700'')
      else 0x5C # js ''u{zz}'' @ escape (js ''1F600''))"

definition sample_read :: "nat \<Rightarrow> error + jsstring" where
  "sample_read p = Inr (sample_contents p)"

definition sample_entries :: "(name \<times> node) list" where
  "sample_entries =
     [(js ''app.slint'', File (escape (js ''E700''))),
      (js ''ui'', Dir [(js ''icons.slint'', File (js ''icon '' @ escape (js ''1F600''))),
                      (js ''notes.txt'', File (escape (js ''E700'')))]),
      (js ''old.slint'', Dir [])]"

text \<open>The same tree with a symbolic link to nothing in its sub-directory.\<close>

definition stale_entries :: "(name \<times> node) list" where
  "stale_entries =
     [(js ''app.slint'', File (escape (js ''E700''))),
      (js ''ui'', Dir [(js ''icons.slint'', File (js ''icon '' @ escape (js ''1F600''))),
                      (js ''gone.slint'', NoStat ENOENT)])]"

definition sample_world :: world where
  "sample_world =
     \<lparr>src_dir = Some (Dir sample_entries),
      font_source = Some (Regular (js ''0123456789'')),
      temp_dir = None,
      target_file = Some (Regular (js ''previous''))\<rparr>"

definition idle_engine :: engine where
  "idle_engine cfg w = (None, w)"

text \<open>An engine that writes \<open>content\<close> as its output file into an existing temporary directory.\<close>

definition writing_engine :: "jsstring \<Rightarrow> engine" where
  "writing_engine content cfg w =
     (None, w\<lparr>temp_dir :=
        (case temp_dir w of
           Some (Directory entries) \<Rightarrow>
             Some (Directory (filter (\<lambda>(n, x). n \<noteq> generated_name) entries
                              @ [(generated_name, Regular content)]))
         | other \<Rightarrow> other)\<rparr>)"

definition sample_engine :: engine where
  "sample_engine = writing_engine (js ''subset'')"

definition large_engine :: engine where
  "large_engine = writing_engine (js ''0123456789abcdef'')"

definition plain_world :: world where
  "plain_world = sample_world\<lparr>src_dir :=
     Some (Dir [(js ''plain.slint'', File (0x5C # js ''u{E7 no icon here''))])\<rparr>"

definition leftover_world :: world where
  "leftover_world =
     sample_world\<lparr>temp_dir := Some (Directory [(js ''leftover.bin'', Regular [])])\<rparr>"

definition bad_world :: world where
  "bad_world = sample_world\<lparr>src_dir :=
     Some (Dir [(js ''bad.slint'', File (escape (js ''110000'')))])\<rparr>"

section \<open>Properties of the regular expression\<close>

lemma not_hex_rbrace: "\<not> hex_digit 0x7D"
  by (simp add: hex_digit_def)

lemma not_hex_backslash: "\<not> hex_digit 0x5C"
  by (simp add: hex_digit_def)

lemma match_at_escape:
  assumes "well_formed h"
  shows "match_at (escape h @ post) = Some (h, length h + 4)"
proof -
  from assms have ne: "h \<noteq> []" and hx: "\<forall>c\<in>set h. hex_digit c"
    by (auto simp: well_formed_def list_all_iff)
  have tw: "takeWhile hex_digit (h @ 0x7D # post) = h"
    using hx not_hex_rbrace by (simp add: takeWhile_append2 )
  have dw: "dropWhile hex_digit (h @ 0x7D # post) = 0x7D # post"
    using hx not_hex_rbrace by (simp add: dropWhile_append2)
  show ?thesis
    using ne tw dw by (simp add: match_at_def escape_def Let_def)
qed

lemma match_at_sound:
  assumes "match_at s = Some (h, n)"
  shows "well_formed h" and "n = length h + 4" and "s = escape h @ drop n s"
proof -
  from assms obtain r where s: "s = 0x5C # 0x75 # 0x7B # r"
    and h: "h = takeWhile hex_digit r" and ne: "h \<noteq> []"
    and br: "take 1 (dropWhile hex_digit r) = [0x7D]" and n: "n = length h + 4"
    unfolding match_at_def by (auto simp: Let_def split: list.splits if_splits)
  from br obtain post where dw: "dropWhile hex_digit r = 0x7D # post"
    by (cases "dropWhile hex_digit r") auto
  have r: "r = h @ 0x7D # post"
    using takeWhile_dropWhile_id [of hex_digit r] h dw by simp
  have wf: "well_formed h"
    using ne h by (auto simp: well_formed_def list_all_iff dest: set_takeWhileD)
  have e: "s = escape h @ post" using s r by (simp add: escape_def)
  have "length (escape h) = n" using n by (simp add: escape_def)
  with e have "drop n s = post" by simp
  with e have e': "s = escape h @ drop n s" by simp
  from wf show "well_formed h" .
  from n show "n = length h + 4" .
  from e' show "s = escape h @ drop n s" .
qed

lemma escape_no_backslash_tail:
  assumes "well_formed h"
  shows "0x5C \<notin> set (tl (escape h))"
  using assms not_hex_backslash by (auto simp: escape_def well_formed_def list_all_iff)

text \<open>An occurrence that starts inside another escape starts at its first unit.\<close>

lemma occurrence_after:
  assumes wf: "well_formed h'"
    and eq: "escape h' @ rest = pre @ escape h @ post"
    and ne: "pre \<noteq> []"
  shows "\<exists>pre'. rest = pre' @ escape h @ post"
proof (cases "length (escape h') \<le> length pre")
  case True
  then have "drop (length (escape h')) (escape h' @ rest) = drop (length (escape h')) pre @ escape h @ post"
    using eq by simp
  then have "rest = drop (length (escape h')) pre @ escape h @ post" by simp
  then show ?thesis by blast
next
  case False
  then have lt: "length pre < length (escape h')" by simp
  have "(escape h' @ rest) ! length pre = escape h' ! length pre"
    using lt by (simp add: nth_append)
  moreover have "(pre @ escape h @ post) ! length pre = 0x5C"
    by (simp add: escape_def)
  ultimately have "escape h' ! length pre = 0x5C"
    using eq by simp
  moreover from ne lt have "escape h' ! length pre \<in> set (tl (escape h'))"
    by (cases "escape h'"; cases pre) (auto simp: nth_Cons')
  ultimately show ?thesis using escape_no_backslash_tail [OF wf] by simp
qed

lemma matches_complete:
  "well_formed h \<Longrightarrow> s = pre @ escape h @ post \<Longrightarrow> h \<in> set (matches s)"
proof (induction s arbitrary: pre rule: matches.induct)
  case 1
  then show ?case by (simp add: escape_def)
next
  case (2 c s)
  show ?case
  proof (cases "match_at (c # s)")
    case None
    have "pre \<noteq> []"
    proof
      assume "pre = []"
      with "2.prems" have "match_at (c # s) = Some (h, length h + 4)"
        by (simp add: match_at_escape)
      with None show False by simp
    qed
    then obtain pre' where "pre = c # pre'" "s = pre' @ escape h @ post"
      using "2.prems"(2) by (cases pre) auto
    with "2.IH"(1) [OF None "2.prems"(1)] None show ?thesis by simp
  next
    case (Some m)
    obtain h' n where m: "m = (h', n)" by (cases m)
    from Some m have ms: "match_at (c # s) = Some (h', n)" by simp
    note snd = match_at_sound [OF ms]
    show ?thesis
    proof (cases "pre = []")
      case True
      with "2.prems" have "match_at (c # s) = Some (h, length h + 4)"
        by (simp add: match_at_escape)
      with Some m show ?thesis by simp
    next
      case False
      have "escape h' @ drop n (c # s) = pre @ escape h @ post"
        by (rule trans [OF snd(3) [symmetric] "2.prems"(2)])
      from occurrence_after [OF snd(1) this False]
      obtain pre' where "drop n (c # s) = pre' @ escape h @ post" by blast
      from "2.IH"(2) [OF Some m [symmetric] "2.prems"(1) this] Some m show ?thesis by simp
    qed
  qed
qed

lemma matches_sound: "h \<in> set (matches s) \<Longrightarrow> h \<in> escapes s"
proof (induction s rule: matches.induct)
  case 1
  then show ?case by simp
next
  case (2 c s)
  show ?case
  proof (cases "match_at (c # s)")
    case None
    with "2.prems" have "h \<in> set (matches s)" by simp
    from "2.IH"(1) [OF None this] obtain pre post where "well_formed h" "s = pre @ escape h @ post"
      by (auto simp: escapes_def)
    then have "well_formed h" "c # s = (c # pre) @ escape h @ post" by simp_all
    then show ?thesis unfolding escapes_def by blast
  next
    case (Some m)
    obtain h' n where m: "m = (h', n)" by (cases m)
    from Some m have ms: "match_at (c # s) = Some (h', n)" by simp
    note snd = match_at_sound(1,3) [OF ms]
    from "2.prems" Some m have "h = h' \<or> h \<in> set (matches (drop n (c # s)))" by auto
    then show ?thesis
    proof
      assume "h = h'"
      with snd have "well_formed h" "c # s = [] @ escape h @ drop n (c # s)" by simp_all
      then show ?thesis unfolding escapes_def by blast
    next
      assume "h \<in> set (matches (drop n (c # s)))"
      from "2.IH"(2) [OF Some m [symmetric] this]
      obtain pre post where "well_formed h" "drop n (c # s) = pre @ escape h @ post"
        by (auto simp: escapes_def)
      with snd(2) have "well_formed h" "c # s = (escape h' @ pre) @ escape h @ post" by simp_all
      then show ?thesis unfolding escapes_def by blast
    qed
  qed
qed

lemma set_matches: "set (matches s) = escapes s"
  using matches_sound matches_complete by (fastforce simp: escapes_def)

lemma search_None: "search s i = None \<Longrightarrow> matches s = []"
  by (induction s arbitrary: i) (auto split: option.splits)

lemma search_Some:
  "search s i = Some (h, e) \<Longrightarrow>
     i < e \<and> e - i \<le> length s \<and> matches s = h # matches (drop (e - i) s)"
proof (induction s arbitrary: i)
  case Nil
  then show ?case by simp
next
  case (Cons c s)
  show ?case
  proof (cases "match_at (c # s)")
    case None
    with Cons.prems have "search s (Suc i) = Some (h, e)" by simp
    from Cons.IH [OF this]
    have ih: "Suc i < e" "e - Suc i \<le> length s" "matches s = h # matches (drop (e - Suc i) s)"
      by simp_all
    from ih(1) have "drop (e - i) (c # s) = drop (e - Suc i) s"
      by (simp add: drop_Cons')
    with ih None show ?thesis by simp
  next
    case (Some m)
    obtain h' n where m: "m = (h', n)" by (cases m)
    from Some m have ms: "match_at (c # s) = Some (h', n)" by simp
    from Cons.prems ms have he: "h = h'" "e = i + n" by simp_all
    have "length (c # s) = length (escape h' @ drop n (c # s))"
      using match_at_sound(3) [OF ms] by simp
    moreover have "length (escape h') = n"
      using match_at_sound(2) [OF ms] by (simp add: escape_def)
    ultimately have "n \<le> length (c # s)" by simp
    moreover have "0 < n" using match_at_sound(2) [OF ms] by simp
    ultimately show ?thesis using he ms by simp
  qed
qed

lemma scan_matches:
  "i \<le> length content \<Longrightarrow>
   scan content i us =
     (case add_all (matches (drop i content)) us of
        Inl e \<Rightarrow> Inl e
      | Inr us' \<Rightarrow> Inr (0, us'))"
proof (induction content i us rule: scan.induct)
  case (1 content i us)
  show ?case
  proof (cases "search (drop i content) i")
    case None
    then have "regex_exec content i = (None, 0)"
      by (simp add: regex_exec_def)
    with search_None [OF None] show ?thesis
      by (subst scan.simps) simp
  next
    case (Some m)
    obtain h e where m: "m = (h, e)" by (cases m)
    from Some m have se: "search (drop i content) i = Some (h, e)" by simp
    with "1.prems" have re: "regex_exec content i = (Some h, e)"
      by (simp add: regex_exec_def)
    from search_Some [OF se]
    have st: "i < e" "e - i \<le> length (drop i content)"
      "matches (drop i content) = h # matches (drop (e - i) (drop i content))"
      by simp_all
    from st(1,2) "1.prems" have le: "e \<le> length content" by simp
    from st(1) have dd: "drop (e - i) (drop i content) = drop e content" by simp
    show ?thesis
    proof (cases "fromCodePoint (parseInt16 h)")
      case (Inl err)
      with re st(3) show ?thesis by (subst scan.simps) simp
    next
      case (Inr char)
      from "1.IH" [OF re [symmetric] refl Inr le]
      have "scan content e (Set_add char us) =
        (case add_all (matches (drop e content)) (Set_add char us) of
           Inl e \<Rightarrow> Inl e | Inr us' \<Rightarrow> Inr (0, us'))" .
      with re st(3) dd Inr show ?thesis by (subst scan.simps) simp
    qed
  qed
qed

lemma add_all_Inr:
  "\<forall>h\<in>set hs. parseInt16 h \<le> 0x10FFFF \<Longrightarrow>
   \<exists>us'. add_all hs us = Inr us' \<and>
         set us' = set us \<union> (\<lambda>h. utf16 (parseInt16 h)) ` set hs \<and>
         (distinct us \<longrightarrow> distinct us')"
proof (induction hs arbitrary: us)
  case Nil
  then show ?case by simp
next
  case (Cons h hs)
  from Cons.prems have fc: "fromCodePoint (parseInt16 h) = Inr (utf16 (parseInt16 h))"
    by (simp add: fromCodePoint_def)
  from Cons.prems have "\<forall>h\<in>set hs. parseInt16 h \<le> 0x10FFFF" by simp
  from Cons.IH [OF this, of "Set_add (utf16 (parseInt16 h)) us"]
  obtain us' where us': "add_all hs (Set_add (utf16 (parseInt16 h)) us) = Inr us'"
    "set us' = set (Set_add (utf16 (parseInt16 h)) us) \<union> (\<lambda>h. utf16 (parseInt16 h)) ` set hs"
    "distinct (Set_add (utf16 (parseInt16 h)) us) \<longrightarrow> distinct us'"
    by blast
  have "set (Set_add (utf16 (parseInt16 h)) us) = insert (utf16 (parseInt16 h)) (set us)"
    by (auto simp: Set_add_def)
  moreover have "distinct us \<longrightarrow> distinct (Set_add (utf16 (parseInt16 h)) us)"
    by (simp add: Set_add_def)
  ultimately show ?case using fc us' by auto
qed

lemma add_all_Inl:
  "\<exists>h\<in>set hs. parseInt16 h > 0x10FFFF \<Longrightarrow> add_all hs us = Inl RangeError"
proof (induction hs arbitrary: us)
  case Nil
  then show ?case by simp
next
  case (Cons h hs)
  show ?case
  proof (cases "parseInt16 h > 0x10FFFF")
    case True
    then show ?thesis by (simp add: fromCodePoint_def)
  next
    case False
    with Cons.prems have "\<exists>h\<in>set hs. parseInt16 h > 0x10FFFF" by auto
    from Cons.IH [OF this] False show ?thesis by (simp add: fromCodePoint_def)
  qed
qed

lemma scan_files_Inr:
  assumes "\<forall>p\<in>set files. read p = Inr (contents p)"
    and "\<forall>p\<in>set files. \<forall>h\<in>escapes (contents p). parseInt16 h \<le> 0x10FFFF"
  shows "\<exists>us'. scan_files read files 0 us = Inr (0, us') \<and>
           set us' = set us \<union> (\<Union>p\<in>set files. (\<lambda>h. utf16 (parseInt16 h)) ` escapes (contents p)) \<and>
           (distinct us \<longrightarrow> distinct us')"
  using assms
proof (induction files arbitrary: us)
  case Nil
  then show ?case by simp
next
  case (Cons p files)
  from Cons.prems have rd: "read p = Inr (contents p)" by simp
  from Cons.prems have "\<forall>h\<in>set (matches (contents p)). parseInt16 h \<le> 0x10FFFF"
    by (simp add: set_matches)
  from add_all_Inr [OF this, of us]
  obtain us1 where us1: "add_all (matches (contents p)) us = Inr us1"
    "set us1 = set us \<union> (\<lambda>h. utf16 (parseInt16 h)) ` escapes (contents p)"
    "distinct us \<longrightarrow> distinct us1"
    by (auto simp: set_matches)
  have sc: "scan (contents p) 0 us = Inr (0, us1)"
    using scan_matches [of 0 "contents p" us] us1(1) by simp
  from Cons.prems have "\<forall>p\<in>set files. read p = Inr (contents p)"
    "\<forall>p\<in>set files. \<forall>h\<in>escapes (contents p). parseInt16 h \<le> 0x10FFFF"
    by simp_all
  from Cons.IH [OF this, of us1]
  obtain us' where us': "scan_files read files 0 us1 = Inr (0, us')"
    "set us' = set us1 \<union> (\<Union>p\<in>set files. (\<lambda>h. utf16 (parseInt16 h)) ` escapes (contents p))"
    "distinct us1 \<longrightarrow> distinct us'"
    by blast
  have "scan_files read (p # files) 0 us = Inr (0, us')"
    using rd sc us'(1) by simp
  moreover have "set us' = set us \<union> (\<Union>p\<in>set (p # files). (\<lambda>h. utf16 (parseInt16 h)) ` escapes (contents p))"
    using us1(2) us'(2) by auto
  moreover have "distinct us \<longrightarrow> distinct us'"
    using us1(3) us'(3) by simp
  ultimately show ?case by blast
qed

section \<open>Properties of the decoding\<close>

lemma unat_of_nat16: "n < 65536 \<Longrightarrow> unat (of_nat n :: 16 word) = n"
  by (simp add: unat_of_nat)

lemma unat_hi: "n < 1024 \<Longrightarrow> unat (0xD800 + of_nat n :: 16 word) = 0xD800 + n"
  by (simp add: unat_word_ariths unat_of_nat)

lemma unat_lo: "n < 1024 \<Longrightarrow> unat (0xDC00 + of_nat n :: 16 word) = 0xDC00 + n"
  by (simp add: unat_word_ariths unat_of_nat)

lemma utf16_roundtrip:
  assumes "cp \<le> 0x10FFFF"
  shows "codePointAt0 (utf16 cp) = Some cp"
proof (cases "cp \<le> 0xFFFF")
  case True
  then have "unat (of_nat cp :: 16 word) = cp" by (simp add: unat_of_nat16)
  with True show ?thesis
    by (simp add: utf16_def codePointAt0_def)
next
  case False
  define x where "x = cp - 0x10000"
  from False assms have x: "x < 0x100000" "cp = x + 0x10000" by (simp_all add: x_def)
  have d: "x div 0x400 < 1024" using x(1) by simp
  have m: "x mod 0x400 < 1024" by simp
  have hi: "unat (0xD800 + of_nat (x div 0x400) :: 16 word) = 0xD800 + x div 0x400"
    using d by (rule unat_hi)
  have lo: "unat (0xDC00 + of_nat (x mod 0x400) :: 16 word) = 0xDC00 + x mod 0x400"
    using m by (rule unat_lo)
  have hr: "(0xD800 :: 16 word) \<le> 0xD800 + of_nat (x div 0x400) \<and>
            0xD800 + of_nat (x div 0x400) \<le> (0xDBFF :: 16 word)"
    using d by (simp add: word_le_nat_alt hi)
  have lr: "(0xDC00 :: 16 word) \<le> 0xDC00 + of_nat (x mod 0x400) \<and>
            0xDC00 + of_nat (x mod 0x400) \<le> (0xDFFF :: 16 word)"
    using m by (simp add: word_le_nat_alt lo)
  have "utf16 cp = [0xD800 + of_nat (x div 0x400), 0xDC00 + of_nat (x mod 0x400)]"
    using False by (simp add: utf16_def x_def)
  then have "codePointAt0 (utf16 cp) = Some ((x div 0x400) * 0x400 + x mod 0x400 + 0x10000)"
    using hr lr hi lo by (simp add: codePointAt0_def)
  then show ?thesis using x(2) by simp
qed

lemma utf16_inj:
  "a \<le> 0x10FFFF \<Longrightarrow> b \<le> 0x10FFFF \<Longrightarrow> utf16 a = utf16 b \<Longrightarrow> a = b"
  by (metis utf16_roundtrip option.inject)

lemma utf16_nonempty: "utf16 cp \<noteq> []"
  by (simp add: utf16_def)

section \<open>Properties of the directory walk\<close>

lemma file_at_nonempty: "file_at entries p \<Longrightarrow> p \<noteq> []"
  by (induction rule: file_at.induct) simp_all

lemma file_at_Nil: "\<not> file_at [] p"
  by (auto elim: file_at.cases)

lemma file_at_mono: "file_at entries p \<Longrightarrow> file_at (x # entries) p"
  by (cases rule: file_at.cases) (auto intro: file_at.intros)

lemma file_at_Cons:
  "file_at ((f, x) # entries) p \<longleftrightarrow>
     (case x of
        File content \<Rightarrow> p = [f]
      | NoRead e \<Rightarrow> p = [f]
      | Dir sub \<Rightarrow> (\<exists>q. p = f # q \<and> file_at sub q)
      | NoList e \<Rightarrow> False
      | NoStat e \<Rightarrow> False) \<or> file_at entries p"
proof
  assume "file_at ((f, x) # entries) p"
  then show "(case x of
        File content \<Rightarrow> p = [f]
      | NoRead e \<Rightarrow> p = [f]
      | Dir sub \<Rightarrow> (\<exists>q. p = f # q \<and> file_at sub q)
      | NoList e \<Rightarrow> False
      | NoStat e \<Rightarrow> False) \<or> file_at entries p"
    by (cases rule: file_at.cases) (auto intro: file_at.intros)
next
  assume a: "(case x of
        File content \<Rightarrow> p = [f]
      | NoRead e \<Rightarrow> p = [f]
      | Dir sub \<Rightarrow> (\<exists>q. p = f # q \<and> file_at sub q)
      | NoList e \<Rightarrow> False
      | NoStat e \<Rightarrow> False) \<or> file_at entries p"
  show "file_at ((f, x) # entries) p"
  proof (cases "file_at entries p")
    case True
    then show ?thesis by (rule file_at_mono)
  next
    case False
    with a show ?thesis
      by (cases x) (auto intro: file_at.intros)
  qed
qed

lemma blocked_Nil: "\<not> blocked []"
  by (auto elim: blocked.cases)

lemma blocked_mono: "blocked entries \<Longrightarrow> blocked (x # entries)"
  by (cases rule: blocked.cases) (auto intro: blocked.intros)

lemma blocked_Cons:
  "blocked ((f, x) # entries) \<longleftrightarrow>
     (case x of
        File content \<Rightarrow> False
      | NoRead e \<Rightarrow> False
      | Dir sub \<Rightarrow> blocked sub
      | NoList e \<Rightarrow> True
      | NoStat e \<Rightarrow> True) \<or> blocked entries"
proof
  assume "blocked ((f, x) # entries)"
  then show "(case x of
        File content \<Rightarrow> False
      | NoRead e \<Rightarrow> False
      | Dir sub \<Rightarrow> blocked sub
      | NoList e \<Rightarrow> True
      | NoStat e \<Rightarrow> True) \<or> blocked entries"
    by (cases rule: blocked.cases) (auto intro: blocked.intros)
next
  assume a: "(case x of
        File content \<Rightarrow> False
      | NoRead e \<Rightarrow> False
      | Dir sub \<Rightarrow> blocked sub
      | NoList e \<Rightarrow> True
      | NoStat e \<Rightarrow> True) \<or> blocked entries"
  show "blocked ((f, x) # entries)"
  proof (cases "blocked entries")
    case True
    then show ?thesis by (rule blocked_mono)
  next
    case False
    with a show ?thesis
      by (cases x) (auto intro: blocked.intros)
  qed
qed

lemma inspectable_simps:
  "inspectable []"
  "inspectable ((f, File content) # entries) \<longleftrightarrow> inspectable entries"
  "inspectable ((f, NoRead e) # entries) \<longleftrightarrow> inspectable entries"
  "inspectable ((f, Dir sub) # entries) \<longleftrightarrow> inspectable sub \<and> inspectable entries"
  "\<not> inspectable ((f, NoList e) # entries)"
  "\<not> inspectable ((f, NoStat e) # entries)"
  by (simp_all add: inspectable_def blocked_Nil blocked_Cons)

lemma slint_files_Nil: "slint_files [] = {}"
  by (simp add: slint_files_def file_at_Nil)

lemma slint_files_File:
  "slint_files ((f, File content) # entries) =
     (if endsWith f (js ''.slint'') then {[f]} else {}) \<union> slint_files entries"
  by (auto simp: slint_files_def file_at_Cons)

lemma slint_files_NoRead:
  "slint_files ((f, NoRead e) # entries) =
     (if endsWith f (js ''.slint'') then {[f]} else {}) \<union> slint_files entries"
  by (auto simp: slint_files_def file_at_Cons)

lemma slint_files_Dir:
  "slint_files ((f, Dir sub) # entries) =
     (\<lambda>q. f # q) ` slint_files sub \<union> slint_files entries"
proof -
  have "p \<in> slint_files ((f, Dir sub) # entries) \<longleftrightarrow>
        p \<in> (\<lambda>q. f # q) ` slint_files sub \<union> slint_files entries" for p
  proof -
    have "(\<exists>q. p = f # q \<and> file_at sub q) \<and> endsWith (last p) (js ''.slint'') \<longleftrightarrow>
          p \<in> (\<lambda>q. f # q) ` slint_files sub"
    proof
      assume "(\<exists>q. p = f # q \<and> file_at sub q) \<and> endsWith (last p) (js ''.slint'')"
      then obtain q where q: "p = f # q" "file_at sub q" "endsWith (last p) (js ''.slint'')"
        by blast
      from q(2) have "q \<noteq> []" by (rule file_at_nonempty)
      with q(1) have "last p = last q" by simp
      with q show "p \<in> (\<lambda>q. f # q) ` slint_files sub"
        by (simp add: slint_files_def)
    next
      assume "p \<in> (\<lambda>q. f # q) ` slint_files sub"
      then obtain q where q: "p = f # q" "file_at sub q" "endsWith (last q) (js ''.slint'')"
        by (auto simp: slint_files_def)
      from q(2) have "q \<noteq> []" by (rule file_at_nonempty)
      with q(1) have "last p = last q" by simp
      with q show "(\<exists>q. p = f # q \<and> file_at sub q) \<and> endsWith (last p) (js ''.slint'')"
        by simp
    qed
    then show ?thesis
      by (auto simp: slint_files_def file_at_Cons)
  qed
  then show ?thesis by blast
qed

lemma set_getAllFiles:
  "getAllFiles dirPath entries arrayOfFiles = Inr files \<Longrightarrow>
   set files = set arrayOfFiles \<union> (\<lambda>p. dirPath @ p) ` slint_files entries"
proof (induction dirPath entries arrayOfFiles arbitrary: files rule: getAllFiles.induct)
  case (1 dirPath arrayOfFiles)
  then show ?case by (simp add: slint_files_Nil)
next
  case (2 dirPath f e rest arrayOfFiles)
  then show ?case by simp
next
  case (3 dirPath f e rest arrayOfFiles)
  then show ?case by simp
next
  case (4 dirPath f entries rest arrayOfFiles)
  from "4.prems" obtain found
    where a: "getAllFiles (dirPath @ [f]) entries arrayOfFiles = Inr found"
      and b: "getAllFiles dirPath rest found = Inr files"
    by (auto split: sum.splits)
  have i: "(\<lambda>p. dirPath @ p) ` (\<lambda>q. f # q) ` slint_files entries =
        (\<lambda>p. (dirPath @ [f]) @ p) ` slint_files entries"
    by (simp add: image_image)
  from "4.IH"(1) [OF a] "4.IH"(2) [OF a b] i show ?case
    by (simp add: slint_files_Dir image_Un Un_assoc)
next
  case (5 dirPath f content rest arrayOfFiles)
  from "5.prems" have "getAllFiles dirPath rest
      (if endsWith f (js ''.slint'') then arrayOfFiles @ [dirPath @ [f]] else arrayOfFiles) =
      Inr files" by simp
  from "5.IH" [OF this] show ?case
    by (auto simp: slint_files_File)
next
  case (6 dirPath f e rest arrayOfFiles)
  from "6.prems" have "getAllFiles dirPath rest
      (if endsWith f (js ''.slint'') then arrayOfFiles @ [dirPath @ [f]] else arrayOfFiles) =
      Inr files" by simp
  from "6.IH" [OF this] show ?case
    by (auto simp: slint_files_NoRead)
qed

lemma getAllFiles_returns:
  "inspectable entries \<Longrightarrow> \<exists>files. getAllFiles dirPath entries arrayOfFiles = Inr files"
proof (induction dirPath entries arrayOfFiles rule: getAllFiles.induct)
  case (4 dirPath f entries rest arrayOfFiles)
  from "4.prems" have s: "inspectable entries" and r: "inspectable rest"
    by (simp_all add: inspectable_simps)
  from "4.IH"(1) [OF s] obtain found
    where a: "getAllFiles (dirPath @ [f]) entries arrayOfFiles = Inr found" by blast
  from "4.IH"(2) [OF a r] a show ?case by simp
qed (simp_all add: inspectable_simps)

lemma getAllFiles_throws:
  "\<not> inspectable entries \<Longrightarrow> \<exists>e. getAllFiles dirPath entries arrayOfFiles = Inl e"
proof (induction dirPath entries arrayOfFiles rule: getAllFiles.induct)
  case (4 dirPath f entries rest arrayOfFiles)
  show ?case
  proof (cases "getAllFiles (dirPath @ [f]) entries arrayOfFiles")
    case (Inl e)
    then show ?thesis by simp
  next
    case (Inr found)
    have "inspectable entries"
    proof (rule ccontr)
      assume "\<not> inspectable entries"
      from "4.IH"(1) [OF this] Inr show False by simp
    qed
    with "4.prems" have "\<not> inspectable rest" by (simp add: inspectable_simps)
    from "4.IH"(2) [OF Inr this] Inr show ?thesis by simp
  qed
qed (simp_all add: inspectable_simps)

lemma getAllFiles_sample:
  "getAllFiles [] sample_entries [] = Inr [[js ''app.slint''], [js ''ui'', js ''icons.slint'']]"
  by (simp add: sample_entries_def endsWith_def js_def)

lemma inspectable_sample: "inspectable sample_entries"
  by (simp add: sample_entries_def inspectable_simps)

lemma getAllFiles_stale: "getAllFiles [] stale_entries [] = Inl ENOENT"
  by (simp add: stale_entries_def endsWith_def js_def)

text \<open>
  In a tree without repeated names, reading a discovered path returns the content of the
  file it leads to, or throws what reading that file throws.
\<close>

lemma distinct_names_keys: "distinct_names entries \<Longrightarrow> distinct (map fst entries)"
  by (induction entries rule: distinct_names.induct) auto

lemma distinct_names_sub:
  "distinct_names entries \<Longrightarrow> (f, Dir sub) \<in> set entries \<Longrightarrow> distinct_names sub"
  by (induction entries rule: distinct_names.induct) auto

lemma file_at_lookup:
  "file_at entries p \<Longrightarrow> distinct_names entries \<Longrightarrow>
   (\<exists>content. lookup entries p = Some (File content)) \<or> (\<exists>e. lookup entries p = Some (NoRead e))"
proof (induction rule: file_at.induct)
  case (here f content entries)
  then have "map_of entries f = Some (File content)"
    by (simp add: distinct_names_keys)
  then show ?case by simp
next
  case (locked f e entries)
  then have "map_of entries f = Some (NoRead e)"
    by (simp add: distinct_names_keys)
  then show ?case by simp
next
  case (below f sub entries p)
  from below.prems below.hyps(1) have "distinct_names sub" by (rule distinct_names_sub)
  with below.IH have c: "(\<exists>content. lookup sub p = Some (File content)) \<or>
      (\<exists>e. lookup sub p = Some (NoRead e))" by blast
  from below.prems below.hyps(1) have m: "map_of entries f = Some (Dir sub)"
    by (simp add: distinct_names_keys)
  from below.hyps(2) have "p \<noteq> []" by (rule file_at_nonempty)
  then obtain a q where "p = a # q" by (cases p) auto
  with c m show ?case by simp
qed

lemma discovered_files_read:
  assumes "distinct_names entries" and "getAllFiles [] entries [] = Inr files"
    and "p \<in> set files"
  shows "(\<exists>content. readFileSync (Some (Dir entries)) p = Inr content) \<or>
         (\<exists>e. lookup entries p = Some (NoRead e) \<and> readFileSync (Some (Dir entries)) p = Inl e)"
proof -
  from assms(2,3) have "file_at entries p"
    by (auto simp: slint_files_def dest: set_getAllFiles)
  from file_at_lookup [OF this assms(1)] show ?thesis
    by (auto simp: readFileSync_def)
qed

section \<open>Properties of the extraction loops\<close>

lemma scan_files_collect:
  "scan_files read files 0 us =
     (case collect read files us of Inl e \<Rightarrow> Inl e | Inr us' \<Rightarrow> Inr (0, us'))"
proof (induction files arbitrary: us)
  case Nil
  show ?case by simp
next
  case (Cons p files)
  show ?case
  proof (cases "read p")
    case (Inl e)
    then show ?thesis by simp
  next
    case (Inr content)
    have sc: "scan content 0 us =
        (case add_all (matches content) us of Inl e \<Rightarrow> Inl e | Inr us' \<Rightarrow> Inr (0, us'))"
      using scan_matches [of 0 content us] by simp
    show ?thesis
    proof (cases "add_all (matches content) us")
      case (Inl e)
      with Inr sc show ?thesis by simp
    next
      case (Inr us1)
      with \<open>read p = Inr content\<close> sc Cons.IH [of us1] show ?thesis by simp
    qed
  qed
qed

lemma collectUnicodes_collect: "collectUnicodes read files = collect read files []"
  by (simp add: collectUnicodes_def scan_files_collect split: sum.splits)

lemma extractUnicodes_collect:
  "extractUnicodes read files =
     (case collect read files [] of Inl e \<Rightarrow> Inl e | Inr us \<Rightarrow> Inr (concat us))"
  by (simp add: extractUnicodes_def collectUnicodes_collect)

lemma collect_cong:
  "\<forall>p\<in>set files. read1 p = read2 p \<Longrightarrow> collect read1 files us = collect read2 files us"
  by (induction files arbitrary: us) (auto split: sum.splits)

lemma matches_escape: "well_formed h \<Longrightarrow> matches (escape h @ post) = h # matches post"
proof -
  assume wf: "well_formed h"
  obtain c s where cs: "escape h @ post = c # s" by (cases "escape h @ post") (auto simp: escape_def)
  have "match_at (c # s) = Some (h, length h + 4)"
    using match_at_escape [OF wf, of post] cs by simp
  moreover have "length (escape h) = length h + 4"
    by (simp add: escape_def)
  then have "drop (length h + 4) (escape h @ post) = post"
    by (metis append_eq_conv_conj)
  ultimately show ?thesis using cs by simp
qed

lemma well_formed_code [simp]:
  "well_formed (js ''E700'')" "well_formed (js ''e700'')" "well_formed (js ''1F600'')"
  "well_formed (js ''110000'')" "well_formed (js ''FFFFFF'')"
  by (simp_all add: well_formed_def js_def hex_digit_def)

lemma parseInt16_code [simp]:
  "parseInt16 (js ''E700'') = 0xE700" "parseInt16 (js ''e700'') = 0xE700"
  "parseInt16 (js ''1F600'') = 0x1F600"
  "parseInt16 (js ''110000'') = 0x110000" "parseInt16 (js ''FFFFFF'') = 0xFFFFFF"
  by (simp_all add: parseInt16_def js_def digit_value_def)

lemma utf16_code [simp]: "utf16 0xE700 = [0xE700]" "utf16 0x1F600 = [0xD83D, 0xDE00]"
  by (simp_all add: utf16_def)

lemma matches_sample:
  "matches (sample_contents 0) = [js ''E700'', js ''e700'']"
  "matches (sample_contents (Suc 0)) = [js ''1F600'']"
  by (simp_all add: sample_contents_def escape_def js_def match_at_def hex_digit_def)

lemma collect_no_escapes:
  assumes "\<forall>p\<in>set files. read p = Inr (contents p)"
    and "\<forall>p\<in>set files. escapes (contents p) = {}"
  shows "extractUnicodes read files = Inr []"
proof -
  from assms(2) have "\<forall>p\<in>set files. \<forall>h\<in>escapes (contents p). parseInt16 h \<le> 0x10FFFF"
    by simp
  from scan_files_Inr [OF assms(1) this, of "[]"] assms(2)
  obtain us where "scan_files read files 0 [] = Inr (0, us)" "set us = {}"
    by auto
  then show ?thesis by (simp add: extractUnicodes_def collectUnicodes_def)
qed

lemma extractUnicodes_RangeError:
  assumes "read p = Inr content" and "h \<in> escapes content" and "parseInt16 h > 0x10FFFF"
  shows "extractUnicodes read [p] = Inl RangeError"
proof -
  from assms(2,3) have "\<exists>h\<in>set (matches content). parseInt16 h > 0x10FFFF"
    by (auto simp: set_matches)
  then have "add_all (matches content) [] = Inl RangeError" by (rule add_all_Inl)
  with assms(1) show ?thesis by (simp add: extractUnicodes_collect)
qed

section \<open>Properties of the run\<close>

lemma run_ended:
  "prepare denied w = Inl (status, out) \<Longrightarrow>
   run engine denied w = \<lparr>outcome = status, final = w, console = out, engine_calls = []\<rparr>"
  by (simp add: run_def)

lemma run_subsetting:
  "prepare denied w = Inr (text, w1, out) \<Longrightarrow>
   engine (fontmin_config text) w1 = (err, w2) \<Longrightarrow>
   callback denied err w2 = (status, w3, out') \<Longrightarrow>
   run engine denied w =
     \<lparr>outcome = status, final = w3, console = out @ out',
      engine_calls = [fontmin_config text]\<rparr>"
  by (simp add: run_def)

lemma prepare_Inr:
  assumes "prepare denied w = Inr (text, w1, out)"
  shows "existsSync (font_source w)"
    and "\<exists>files. getAllFiles_root (src_dir w) = Inr files \<and>
           extractUnicodes (readFileSync (src_dir w)) files = Inr text"
    and "text \<noteq> []"
    and "ensure_temp_dir denied w = Inr w1"
  using assms
  by (auto simp: prepare_def Let_def split: if_splits sum.splits)

lemma ensure_temp_dir_Inr:
  assumes "ensure_temp_dir denied w = Inr w1"
  shows "existsSync (temp_dir w1)" and "target_file w1 = target_file w"
    and "font_source w1 = font_source w" and "src_dir w1 = src_dir w"
  using assms
  by (auto simp: ensure_temp_dir_def mkdirSync_temp_def existsSync_def
      split: if_splits option.splits item.splits)

lemma collect_sample:
  "collect (readFileSync (Some (Dir sample_entries)))
     [[js ''app.slint''], [js ''ui'', js ''icons.slint'']] [] = Inr [[0xE700], [0xD83D, 0xDE00]]"
proof -
  have r1: "readFileSync (Some (Dir sample_entries)) [js ''app.slint''] = Inr (escape (js ''E700''))"
    by (simp add: readFileSync_def sample_entries_def js_def)
  have r2: "readFileSync (Some (Dir sample_entries)) [js ''ui'', js ''icons.slint''] =
      Inr (js ''icon '' @ escape (js ''1F600''))"
    by (simp add: readFileSync_def sample_entries_def js_def)
  have m1: "matches (escape (js ''E700'')) = [js ''E700'']"
    using matches_escape [of "js ''E700''" "[]"] by simp
  have m2: "matches (js ''icon '' @ escape (js ''1F600'')) = [js ''1F600'']"
    by (simp add: escape_def js_def match_at_def hex_digit_def)
  show ?thesis
    by (simp add: r1 r2 m1 m2 fromCodePoint_def Set_add_def)
qed

lemma extractUnicodes_sample:
  "extractUnicodes (readFileSync (Some (Dir sample_entries)))
     [[js ''app.slint''], [js ''ui'', js ''icons.slint'']] = Inr [0xE700, 0xD83D, 0xDE00]"
  by (simp only: extractUnicodes_collect collect_sample) simp

lemma prepare_sample:
  "temp_dir w = None \<or> (\<exists>entries. temp_dir w = Some (Directory entries)) \<Longrightarrow>
   MkdirTemp \<notin> denied \<Longrightarrow>
   src_dir w = Some (Dir sample_entries) \<Longrightarrow> font_source w = Some src \<Longrightarrow>
   prepare denied w =
     Inr ([0xE700, 0xD83D, 0xDE00],
          (if temp_dir w = None then w\<lparr>temp_dir := Some (Directory [])\<rparr> else w),
          [Log Scanning, Log (FoundFiles 2), Log Extracting, Log (FoundCharacters 3),
           Log Subsetting])"
  by (auto simp: prepare_def existsSync_def getAllFiles_root_def getAllFiles_sample
      extractUnicodes_sample ensure_temp_dir_def mkdirSync_temp_def)

lemma callback_missing_output:
  "\<not> existsSync (generatedFile w) \<Longrightarrow>
   callback denied None w = (Exit 0, w, [Error ExpectedOutputNotFound])"
  by (simp add: callback_def)

lemma prepare_sample_world:
  "prepare {} sample_world =
     Inr ([0xE700, 0xD83D, 0xDE00], sample_world\<lparr>temp_dir := Some (Directory [])\<rparr>,
          [Log Scanning, Log (FoundFiles 2), Log Extracting, Log (FoundCharacters 3),
           Log Subsetting])"
  using prepare_sample [of sample_world "{}" "Regular (js ''0123456789'')"]
  by (simp add: sample_world_def)

lemma try_body_success:
  assumes "temp_dir w = Some (Directory [(generated_name, Regular g)])"
    and "\<forall>entries. target_file w \<noteq> Some (Directory entries)"
    and "font_source w = Some src"
    and "denied \<inter> {UnlinkTarget, CopyFile, UnlinkGenerated, RmdirTemp, StatSource, StatTarget} = {}"
  shows "try_body denied w =
     (None, w\<lparr>target_file := Some (Regular g), temp_dir := None\<rparr>,
      [Log SuccessfullyGenerated, Log (OriginalSize (node_size src)), Log (NewSize (length g)),
       Log Reduction])"
proof -
  from assms(4) have d: "UnlinkTarget \<notin> denied" "CopyFile \<notin> denied" "UnlinkGenerated \<notin> denied"
    "RmdirTemp \<notin> denied" "StatSource \<notin> denied" "StatTarget \<notin> denied"
    by auto
  from assms(2) obtain w1 where c: "clear_target denied w = Inr w1"
    and w1: "w1 = w\<lparr>target_file := None\<rparr>"
    by (cases "target_file w")
      (auto simp: clear_target_def existsSync_def unlinkSync_target_def d split: item.splits)
  have cp: "copyFileSync denied w1 = Inr (w\<lparr>target_file := Some (Regular g)\<rparr>)"
    using assms(1) by (simp add: copyFileSync_def d w1 generatedFile_def)
  have ug: "unlinkSync_generated denied (w\<lparr>target_file := Some (Regular g)\<rparr>) =
      Inr (w\<lparr>target_file := Some (Regular g), temp_dir := Some (Directory [])\<rparr>)"
    using assms(1) by (simp add: unlinkSync_generated_def d generatedFile_def)
  have rm: "rmdirSync_temp denied (w\<lparr>target_file := Some (Regular g), temp_dir := Some (Directory [])\<rparr>) =
      Inr (w\<lparr>target_file := Some (Regular g), temp_dir := None\<rparr>)"
    by (simp add: rmdirSync_temp_def d)
  have s1: "statSync_size denied StatSource (font_source w) = Inr (node_size src)"
    using assms(3) by (simp add: statSync_size_def d)
  have s2: "statSync_size denied StatTarget (Some (Regular g)) = Inr (length g)"
    by (simp add: statSync_size_def d)
  show ?thesis
    unfolding try_body_def by (simp add: c cp ug rm s1 s2)
qed

lemma sample_engine_fresh:
  "sample_engine cfg (sample_world\<lparr>temp_dir := Some (Directory [])\<rparr>) =
     (None, sample_world\<lparr>temp_dir := Some (Directory [(generated_name, Regular (js ''subset''))])\<rparr>)"
  by (simp add: sample_engine_def writing_engine_def)

lemma generated_name_neq: "js ''leftover.bin'' \<noteq> generated_name"
  by (simp add: generated_name_def js_def)

lemma callback_caught:
  "existsSync (generatedFile w) \<Longrightarrow> try_body denied w = (Some e, w', out) \<Longrightarrow>
   callback denied None w = (Exit 0, w', out @ [Error (ErrorMovingFile e)])"
  by (simp add: callback_def)

lemma clear_target_Inr:
  "clear_target denied w = Inr wc \<Longrightarrow> wc = w\<lparr>target_file := None\<rparr>"
  by (auto simp: clear_target_def existsSync_def unlinkSync_target_def
      split: if_splits option.splits item.splits)

lemma try_body_copy_fails:
  "clear_target denied w = Inr wc \<Longrightarrow> copyFileSync denied wc = Inl e \<Longrightarrow>
   try_body denied w = (Some e, wc, [])"
  by (simp add: try_body_def)

lemma prepare_sample_world_denied:
  "prepare {CopyFile} sample_world =
     Inr ([0xE700, 0xD83D, 0xDE00], sample_world\<lparr>temp_dir := Some (Directory [])\<rparr>,
          [Log Scanning, Log (FoundFiles 2), Log Extracting, Log (FoundCharacters 3),
           Log Subsetting])"
  using prepare_sample [of sample_world "{CopyFile}" "Regular (js ''0123456789'')"]
  by (simp add: sample_world_def)

lemma prepare_ended_or_subsetting:
  "engine_calls (run engine denied w) =
     (case prepare denied w of Inl x \<Rightarrow> [] | Inr (text, w1, out) \<Rightarrow> [fontmin_config text])"
  by (simp add: run_def split: sum.splits prod.splits)

lemma run_engine_cong:
  assumes "prepare denied w = Inr (text, w1, out)"
    and "engine' (fontmin_config text) w1 = engine (fontmin_config text) w1"
  shows "run engine' denied w = run engine denied w"
proof -
  have "run engine' denied w =
      (case engine' (fontmin_config text) w1 of
         (err, w2) \<Rightarrow>
           (case callback denied err w2 of
              (status, w3, out') \<Rightarrow>
                \<lparr>outcome = status, final = w3, console = out @ out',
                 engine_calls = [fontmin_config text]\<rparr>))"
    by (simp add: run_def assms(1))
  also have "\<dots> =
      (case engine (fontmin_config text) w1 of
         (err, w2) \<Rightarrow>
           (case callback denied err w2 of
              (status, w3, out') \<Rightarrow>
                \<lparr>outcome = status, final = w3, console = out @ out',
                 engine_calls = [fontmin_config text]\<rparr>))"
    by (simp only: assms(2))
  also have "\<dots> = run engine denied w"
    by (simp add: run_def assms(1))
  finally show ?thesis .
qed

lemma run_missing_output:
  assumes "prepare denied w = Inr (text, w1, out)"
    and "engine (fontmin_config text) w1 = (None, w2)"
    and "\<not> existsSync (generatedFile w2)"
  shows "run engine denied w =
           \<lparr>outcome = Exit 0, final = w2, console = out @ [Error ExpectedOutputNotFound],
            engine_calls = [fontmin_config text]\<rparr>"
  using assms(1,2) callback_missing_output [OF assms(3)]
  by (rule run_subsetting [where engine = engine])

lemma run_published:
  assumes "prepare denied w = Inr (text, w1, out)"
    and "engine (fontmin_config text) w1 = (None, w2)"
    and "temp_dir w2 = Some (Directory [(generated_name, Regular g)])"
    and "\<forall>entries. target_file w2 \<noteq> Some (Directory entries)"
    and "font_source w2 = Some src"
    and "denied \<inter> {UnlinkTarget, CopyFile, UnlinkGenerated, RmdirTemp, StatSource, StatTarget} = {}"
  shows "run engine denied w =
           \<lparr>outcome = Exit 0, final = w2\<lparr>target_file := Some (Regular g), temp_dir := None\<rparr>,
            console = out @ [Log SuccessfullyGenerated, Log (OriginalSize (node_size src)),
                             Log (NewSize (length g)), Log Reduction],
            engine_calls = [fontmin_config text]\<rparr>"
proof -
  have g: "existsSync (generatedFile w2)"
    using assms(3) by (simp add: existsSync_def generatedFile_def)
  have "callback denied None w2 =
     (Exit 0, w2\<lparr>target_file := Some (Regular g), temp_dir := None\<rparr>,
      [Log SuccessfullyGenerated, Log (OriginalSize (node_size src)), Log (NewSize (length g)),
       Log Reduction])"
    using g try_body_success [OF assms(3,4,5,6)] by (simp add: callback_def)
  with assms(1,2) show ?thesis by (rule run_subsetting [where engine = engine])
qed

lemma large_engine_fresh:
  "large_engine cfg (sample_world\<lparr>temp_dir := Some (Directory [])\<rparr>) =
     (None, sample_world\<lparr>temp_dir :=
        Some (Directory [(generated_name, Regular (js ''0123456789abcdef''))])\<rparr>)"
  by (simp add: large_engine_def writing_engine_def)

lemma sample_run:
  "run sample_engine {} sample_world =
     \<lparr>outcome = Exit 0,
      final = sample_world\<lparr>target_file := Some (Regular (js ''subset'')), temp_dir := None\<rparr>,
      console = [Log Scanning, Log (FoundFiles 2), Log Extracting, Log (FoundCharacters 3),
                 Log Subsetting, Log SuccessfullyGenerated, Log (OriginalSize 10),
                 Log (NewSize 6), Log Reduction],
      engine_calls = [fontmin_config [0xE700, 0xD83D, 0xDE00]]\<rparr>"
proof -
  let ?w2 = "sample_world\<lparr>temp_dir := Some (Directory [(generated_name, Regular (js ''subset''))])\<rparr>"
  have t: "temp_dir ?w2 = Some (Directory [(generated_name, Regular (js ''subset''))])" by simp
  have n: "\<forall>entries. target_file ?w2 \<noteq> Some (Directory entries)" by (simp add: sample_world_def)
  have f: "font_source ?w2 = Some (Regular (js ''0123456789''))" by (simp add: sample_world_def)
  have d: "{} \<inter> {UnlinkTarget, CopyFile, UnlinkGenerated, RmdirTemp, StatSource, StatTarget} = {}"
    by simp
  from run_published [where engine = sample_engine, OF prepare_sample_world sample_engine_fresh t n f d]
  show ?thesis by (simp add: js_def)
qed

lemma large_run:
  "run large_engine {} sample_world =
     \<lparr>outcome = Exit 0,
      final = sample_world\<lparr>target_file := Some (Regular (js ''0123456789abcdef'')),
                            temp_dir := None\<rparr>,
      console = [Log Scanning, Log (FoundFiles 2), Log Extracting, Log (FoundCharacters 3),
                 Log Subsetting, Log SuccessfullyGenerated, Log (OriginalSize 10),
                 Log (NewSize 16), Log Reduction],
      engine_calls = [fontmin_config [0xE700, 0xD83D, 0xDE00]]\<rparr>"
proof -
  let ?w2 = "sample_world\<lparr>temp_dir :=
      Some (Directory [(generated_name, Regular (js ''0123456789abcdef''))])\<rparr>"
  have t: "temp_dir ?w2 = Some (Directory [(generated_name, Regular (js ''0123456789abcdef''))])"
    by simp
  have n: "\<forall>entries. target_file ?w2 \<noteq> Some (Directory entries)" by (simp add: sample_world_def)
  have f: "font_source ?w2 = Some (Regular (js ''0123456789''))" by (simp add: sample_world_def)
  have d: "{} \<inter> {UnlinkTarget, CopyFile, UnlinkGenerated, RmdirTemp, StatSource, StatTarget} = {}"
    by simp
  from run_published [where engine = large_engine, OF prepare_sample_world large_engine_fresh t n f d]
  show ?thesis by (simp add: js_def)
qed

lemma leftover_run:
  "sample_engine (fontmin_config [0xE700, 0xD83D, 0xDE00]) leftover_world =
     (None, leftover_world\<lparr>temp_dir := Some (Directory [(js ''leftover.bin'', Regular []),
                                                      (generated_name, Regular (js ''subset''))])\<rparr>)"
  "run sample_engine {} leftover_world =
     \<lparr>outcome = Exit 0,
      final = leftover_world\<lparr>target_file := Some (Regular (js ''subset''))\<rparr>,
      console = [Log Scanning, Log (FoundFiles 2), Log Extracting, Log (FoundCharacters 3),
                 Log Subsetting, Log SuccessfullyGenerated, Error (ErrorMovingFile ENOTEMPTY)],
      engine_calls = [fontmin_config [0xE700, 0xD83D, 0xDE00]]\<rparr>"
proof -
  let ?w2 = "leftover_world\<lparr>temp_dir := Some (Directory [(js ''leftover.bin'', Regular []),
      (generated_name, Regular (js ''subset''))])\<rparr>"
  have p: "prepare {} leftover_world =
     Inr ([0xE700, 0xD83D, 0xDE00], leftover_world,
          [Log Scanning, Log (FoundFiles 2), Log Extracting, Log (FoundCharacters 3),
           Log Subsetting])"
    using prepare_sample [of leftover_world "{}" "Regular (js ''0123456789'')"]
    by (simp add: leftover_world_def sample_world_def)
  show e: "sample_engine (fontmin_config [0xE700, 0xD83D, 0xDE00]) leftover_world = (None, ?w2)"
    using generated_name_neq by (simp add: sample_engine_def writing_engine_def leftover_world_def)
  have g: "generatedFile ?w2 = Some (Regular (js ''subset''))"
    using generated_name_neq by (simp add: generatedFile_def)
  have c: "clear_target {} ?w2 = Inr (?w2\<lparr>target_file := None\<rparr>)"
    by (simp add: clear_target_def existsSync_def unlinkSync_target_def leftover_world_def
        sample_world_def)
  have cp: "copyFileSync {} (?w2\<lparr>target_file := None\<rparr>) =
      Inr (?w2\<lparr>target_file := Some (Regular (js ''subset''))\<rparr>)"
    using generated_name_neq by (simp add: copyFileSync_def generatedFile_def)
  have ug: "unlinkSync_generated {} (?w2\<lparr>target_file := Some (Regular (js ''subset''))\<rparr>) =
      Inr (leftover_world\<lparr>target_file := Some (Regular (js ''subset''))\<rparr>)"
    using generated_name_neq
    by (simp add: unlinkSync_generated_def generatedFile_def leftover_world_def)
  have rm: "rmdirSync_temp {} (leftover_world\<lparr>target_file := Some (Regular (js ''subset''))\<rparr>) =
      Inl ENOTEMPTY"
    by (simp add: rmdirSync_temp_def leftover_world_def)
  have tb: "try_body {} ?w2 =
      (Some ENOTEMPTY, leftover_world\<lparr>target_file := Some (Regular (js ''subset''))\<rparr>,
       [Log SuccessfullyGenerated])"
    unfolding try_body_def by (simp add: c cp ug rm)
  have cb: "callback {} None ?w2 =
      (Exit 0, leftover_world\<lparr>target_file := Some (Regular (js ''subset''))\<rparr>,
       [Log SuccessfullyGenerated, Error (ErrorMovingFile ENOTEMPTY)])"
    by (simp add: callback_def g existsSync_def tb)
  from run_subsetting [where engine = sample_engine, OF p e cb]
  show "run sample_engine {} leftover_world =
     \<lparr>outcome = Exit 0,
      final = leftover_world\<lparr>target_file := Some (Regular (js ''subset''))\<rparr>,
      console = [Log Scanning, Log (FoundFiles 2), Log Extracting, Log (FoundCharacters 3),
                 Log Subsetting, Log SuccessfullyGenerated, Error (ErrorMovingFile ENOTEMPTY)],
      engine_calls = [fontmin_config [0xE700, 0xD83D, 0xDE00]]\<rparr>"
    by simp
qed

lemma idle_run:
  "run idle_engine {} sample_world =
     \<lparr>outcome = Exit 0, final = sample_world\<lparr>temp_dir := Some (Directory [])\<rparr>,
      console = [Log Scanning, Log (FoundFiles 2), Log Extracting, Log (FoundCharacters 3),
                 Log Subsetting, Error ExpectedOutputNotFound],
      engine_calls = [fontmin_config [0xE700, 0xD83D, 0xDE00]]\<rparr>"
proof -
  have e: "idle_engine (fontmin_config [0xE700, 0xD83D, 0xDE00])
       (sample_world\<lparr>temp_dir := Some (Directory [])\<rparr>) =
     (None, sample_world\<lparr>temp_dir := Some (Directory [])\<rparr>)"
    by (simp add: idle_engine_def)
  have g: "\<not> existsSync (generatedFile (sample_world\<lparr>temp_dir := Some (Directory [])\<rparr>))"
    by (simp add: existsSync_def generatedFile_def)
  from run_missing_output [where engine = idle_engine, OF prepare_sample_world e g]
  show ?thesis by simp
qed

section \<open>The claims\<close>

subsection \<open>Code-point extraction\<close>

text \<open>
  Claim C1, as the code has it. \<open>String.fromCodePoint\<close> throws for a value above
  \<open>0x10FFFF\<close>, so the claim holds for the texts whose well-formed escapes all stay within
  that bound: if every listed file can be read and every well-formed escape in the
  contents has a hex value of at most \<open>0x10FFFF\<close>, then \<open>extractUnicodes\<close> returns, the
  set it has built holds every member once and is exactly the set of the characters
  \<open>utf16 (parseInt16 h)\<close> for the well-formed escapes \<open>h\<close> of the contents, the result
  is the concatenation of that set, and the code point of each such character is the hex
  value of its escape. A malformed escape is not in \<open>escapes\<close> and adds nothing.
\<close>

theorem extractUnicodes_exact:
  assumes "\<forall>p\<in>set files. read p = Inr (contents p)"
    and "\<forall>p\<in>set files. \<forall>h\<in>escapes (contents p). parseInt16 h \<le> 0x10FFFF"
  shows "\<exists>us. collectUnicodes read files = Inr us \<and>
           extractUnicodes read files = Inr (concat us) \<and>
           distinct us \<and>
           set us = (\<Union>p\<in>set files. (\<lambda>h. utf16 (parseInt16 h)) ` escapes (contents p)) \<and>
           (\<forall>p\<in>set files. \<forall>h\<in>escapes (contents p).
              codePointAt0 (utf16 (parseInt16 h)) = Some (parseInt16 h))"
proof -
  from scan_files_Inr [OF assms, of "[]"]
  obtain us where "scan_files read files 0 [] = Inr (0, us)"
    "set us = (\<Union>p\<in>set files. (\<lambda>h. utf16 (parseInt16 h)) ` escapes (contents p))"
    "distinct us"
    by auto
  moreover have "\<forall>p\<in>set files. \<forall>h\<in>escapes (contents p).
      codePointAt0 (utf16 (parseInt16 h)) = Some (parseInt16 h)"
    using assms(2) by (simp add: utf16_roundtrip)
  ultimately show ?thesis
    by (simp add: collectUnicodes_def extractUnicodes_def)
qed

theorem extractUnicodes_exact_witness:
  "escapes (sample_contents 0) = {js ''E700'', js ''e700''} \<and>
   escapes (sample_contents 1) = {js ''1F600''} \<and>
   (\<exists>us. collectUnicodes sample_read [0, 1] = Inr us \<and>
      extractUnicodes sample_read [0, 1] = Inr (concat us) \<and>
      distinct us \<and> set us = {[0xE700], [0xD83D, 0xDE00]})"
proof -
  have e0: "escapes (sample_contents 0) = {js ''E700'', js ''e700''}"
    using set_matches [of "sample_contents 0"] by (simp add: matches_sample)
  have e1: "escapes (sample_contents 1) = {js ''1F600''}"
    using set_matches [of "sample_contents 1"] by (simp add: matches_sample)
  have r: "\<forall>p\<in>set [0, 1]. sample_read p = Inr (sample_contents p)"
    by (simp add: sample_read_def)
  have b: "\<forall>p\<in>set [0, 1]. \<forall>h\<in>escapes (sample_contents p). parseInt16 h \<le> 0x10FFFF"
    using e0 e1 by simp
  from extractUnicodes_exact [OF r b]
  obtain us where "collectUnicodes sample_read [0, 1] = Inr us"
    "extractUnicodes sample_read [0, 1] = Inr (concat us)" "distinct us"
    "set us = (\<Union>p\<in>set [0, 1]. (\<lambda>h. utf16 (parseInt16 h)) ` escapes (sample_contents p))"
    by blast
  moreover have "(\<Union>p\<in>set [0, 1]. (\<lambda>h. utf16 (parseInt16 h)) ` escapes (sample_contents p)) =
      {[0xE700], [0xD83D, 0xDE00]}"
    using e0 e1 by (simp add: insert_commute)
  ultimately show ?thesis using e0 e1 by auto
qed

text \<open>
  Claim C1 as stated, for every text, fails: the escape \<open>\u{FFFFFF}\<close> is well formed and
  occurs in the text, and no set is produced.
\<close>

theorem extractUnicodes_total_counterexample:
  "well_formed (js ''FFFFFF'') \<and>
   js ''FFFFFF'' \<in> escapes (js ''icon: '' @ escape (js ''FFFFFF'')) \<and>
   collectUnicodes (\<lambda>p :: nat. Inr (js ''icon: '' @ escape (js ''FFFFFF''))) [0] = Inl RangeError"
proof -
  have m: "matches (js ''icon: '' @ escape (js ''FFFFFF'')) = [js ''FFFFFF'']"
    by (simp add: escape_def js_def match_at_def hex_digit_def)
  have "js ''FFFFFF'' \<in> escapes (js ''icon: '' @ escape (js ''FFFFFF''))"
    using set_matches [of "js ''icon: '' @ escape (js ''FFFFFF'')", symmetric] m by simp
  moreover have "collectUnicodes (\<lambda>p :: nat. Inr (js ''icon: '' @ escape (js ''FFFFFF''))) [0] =
      Inl RangeError"
    by (simp add: collectUnicodes_collect m fromCodePoint_def)
  ultimately show ?thesis by simp
qed

text \<open>
  Claim C8: extraction is not total. When a file contains a well-formed escape whose hex
  value exceeds \<open>0x10FFFF\<close>, \<open>extractUnicodes\<close> throws a \<open>RangeError\<close>; nothing catches it,
  so the run ends there with exit status 1, before the subsetting engine is called.
\<close>

theorem out_of_range_escape_aborts:
  assumes "h \<in> escapes content" and "parseInt16 h > 0x10FFFF"
    and "existsSync (font_source w)"
    and "src_dir w = Some (Dir [(f, File content)])"
    and "endsWith f (js ''.slint'')"
  shows "extractUnicodes (readFileSync (src_dir w)) [[f]] = Inl RangeError \<and>
         run engine denied w =
           \<lparr>outcome = Uncaught RangeError, final = w,
            console = [Log Scanning, Log (FoundFiles 1), Log Extracting],
            engine_calls = []\<rparr> \<and>
         exit_code (outcome (run engine denied w)) = 1"
proof -
  have r: "readFileSync (src_dir w) [f] = Inr content"
    using assms(4) by (simp add: readFileSync_def)
  have x: "extractUnicodes (readFileSync (src_dir w)) [[f]] = Inl RangeError"
    using r assms(1,2) by (rule extractUnicodes_RangeError)
  have g: "getAllFiles_root (src_dir w) = Inr [[f]]"
    using assms(4,5) by (simp add: getAllFiles_root_def)
  have "prepare denied w =
      Inl (Uncaught RangeError, [Log Scanning, Log (FoundFiles 1), Log Extracting])"
    using assms(3) g x by (simp add: prepare_def)
  then have "run engine denied w =
      \<lparr>outcome = Uncaught RangeError, final = w,
       console = [Log Scanning, Log (FoundFiles 1), Log Extracting], engine_calls = []\<rparr>"
    by (rule run_ended)
  with x show ?thesis by simp
qed

theorem out_of_range_escape_aborts_witness:
  "js ''110000'' \<in> escapes (escape (js ''110000'')) \<and>
   parseInt16 (js ''110000'') = 0x110000 \<and>
   extractUnicodes (readFileSync (src_dir bad_world)) [[js ''bad.slint'']] = Inl RangeError \<and>
   outcome (run sample_engine {} bad_world) = Uncaught RangeError \<and>
   exit_code (outcome (run sample_engine {} bad_world)) = 1 \<and>
   engine_calls (run sample_engine {} bad_world) = []"
proof -
  have m: "matches (escape (js ''110000'')) = [js ''110000'']"
    using matches_escape [of "js ''110000''" "[]"] by simp
  have h: "js ''110000'' \<in> escapes (escape (js ''110000''))"
    using set_matches [of "escape (js ''110000'')", symmetric] m by simp
  have b: "parseInt16 (js ''110000'') > 0x10FFFF" by simp
  have f: "existsSync (font_source bad_world)"
    by (simp add: bad_world_def sample_world_def existsSync_def)
  have s: "src_dir bad_world = Some (Dir [(js ''bad.slint'', File (escape (js ''110000'')))])"
    by (simp add: bad_world_def)
  have e: "endsWith (js ''bad.slint'') (js ''.slint'')"
    by (simp add: endsWith_def js_def)
  from out_of_range_escape_aborts [OF h b f s e, of sample_engine "{}"] h show ?thesis by simp
qed

text \<open>
  Claim C10: extraction is deterministic. Two runs over the same file list that read the
  same contents from the listed files return the same result, whatever else differs; the
  result is the concatenation of the decoded matches in the order of their first
  occurrence, file after file.
\<close>

theorem extractUnicodes_deterministic:
  assumes "\<forall>p\<in>set files. read1 p = read2 p"
  shows "extractUnicodes read1 files = extractUnicodes read2 files \<and>
         extractUnicodes read1 files =
           (case collect read1 files [] of Inl e \<Rightarrow> Inl e | Inr us \<Rightarrow> Inr (concat us))"
  using collect_cong [OF assms, of "[]"] by (simp add: extractUnicodes_collect)

theorem extractUnicodes_deterministic_witness:
  "extractUnicodes sample_read [0, 1] =
   extractUnicodes (\<lambda>p. if p \<le> 1 then Inr (sample_contents p) else Inl ENOENT) [0, 1]"
proof -
  have "\<forall>p\<in>set [0, 1]. sample_read p =
      (\<lambda>p. if p \<le> 1 then Inr (sample_contents p) else Inl ENOENT) p"
    by (simp add: sample_read_def)
  from extractUnicodes_deterministic [OF this] show ?thesis by (rule conjunct1)
qed

subsection \<open>File discovery\<close>

text \<open>
  Claim C2, as the code has it. \<open>fs.statSync\<close> and \<open>fs.readdirSync\<close> throw on an entry
  they cannot inspect, and nothing catches the exception, so the claim holds for the
  trees that can be walked: if every entry below the root can be inspected and every
  directory listed, \<open>getAllFiles\<close> returns, and the paths it returns are exactly the paths
  that lead to a file, at any depth, whose name ends with \<open>.slint\<close>. Other files are
  skipped; a directory is walked and never returned, whatever its name. On any other tree
  the walk throws and returns nothing.
\<close>

theorem getAllFiles_exact:
  "(inspectable entries \<longrightarrow>
      (\<exists>files. getAllFiles_root (Some (Dir entries)) = Inr files \<and>
         set files = {p. file_at entries p \<and> endsWith (last p) (js ''.slint'')})) \<and>
   (\<not> inspectable entries \<longrightarrow> (\<exists>e. getAllFiles_root (Some (Dir entries)) = Inl e))"
proof (intro conjI impI)
  assume "inspectable entries"
  then obtain files where f: "getAllFiles [] entries [] = Inr files"
    using getAllFiles_returns by blast
  from set_getAllFiles [OF f] f
  show "\<exists>files. getAllFiles_root (Some (Dir entries)) = Inr files \<and>
      set files = {p. file_at entries p \<and> endsWith (last p) (js ''.slint'')}"
    by (simp add: getAllFiles_root_def slint_files_def)
next
  assume "\<not> inspectable entries"
  then show "\<exists>e. getAllFiles_root (Some (Dir entries)) = Inl e"
    using getAllFiles_throws by (simp add: getAllFiles_root_def)
qed

theorem getAllFiles_exact_witness:
  "inspectable sample_entries \<and>
   getAllFiles_root (Some (Dir sample_entries)) =
     Inr [[js ''app.slint''], [js ''ui'', js ''icons.slint'']] \<and>
   {p. file_at sample_entries p \<and> endsWith (last p) (js ''.slint'')} =
     {[js ''app.slint''], [js ''ui'', js ''icons.slint'']}"
proof -
  have g: "getAllFiles_root (Some (Dir sample_entries)) =
      Inr [[js ''app.slint''], [js ''ui'', js ''icons.slint'']]"
    by (simp add: getAllFiles_root_def getAllFiles_sample)
  from getAllFiles_exact [of sample_entries] inspectable_sample
  obtain files where a: "getAllFiles_root (Some (Dir sample_entries)) = Inr files"
    and b: "set files = {p. file_at sample_entries p \<and> endsWith (last p) (js ''.slint'')}"
    by blast
  from a g have "files = [[js ''app.slint''], [js ''ui'', js ''icons.slint'']]" by simp
  with b have "{p. file_at sample_entries p \<and> endsWith (last p) (js ''.slint'')} =
      {[js ''app.slint''], [js ''ui'', js ''icons.slint'']}" by simp
  with g inspectable_sample show ?thesis by simp
qed

text \<open>
  Claim C2 as stated, for every directory tree, fails: \<open>ui/gone.slint\<close> is a symbolic link
  to nothing, \<open>fs.statSync\<close> throws \<open>ENOENT\<close> on it, and the walk returns no file at all,
  although \<open>app.slint\<close> is a file under the root whose name ends with \<open>.slint\<close>.
\<close>

theorem getAllFiles_stale_link_counterexample:
  "file_at stale_entries [js ''app.slint''] \<and>
   endsWith (last [js ''app.slint'']) (js ''.slint'') \<and>
   getAllFiles_root (Some (Dir stale_entries)) = Inl ENOENT"
proof -
  have "file_at stale_entries [js ''app.slint'']"
    by (rule file_at.here [of _ "escape (js ''E700'')"]) (simp add: stale_entries_def)
  moreover have "endsWith (last [js ''app.slint'']) (js ''.slint'')"
    by (simp add: endsWith_def js_def)
  moreover have "getAllFiles_root (Some (Dir stale_entries)) = Inl ENOENT"
    by (simp add: getAllFiles_root_def getAllFiles_stale)
  ultimately show ?thesis by simp
qed

subsection \<open>The run\<close>

text \<open>
  Claim C5: if the source font does not exist, the run ends with exit status 1 at once:
  it prints the error and nothing else, does not call the engine, and leaves every file
  as it was.
\<close>

theorem missing_source_font:
  "\<not> existsSync (font_source w) \<Longrightarrow>
   run engine denied w =
     \<lparr>outcome = Exit 1, final = w, console = [Error SourceFontNotFound], engine_calls = []\<rparr>"
  by (simp add: run_def prepare_def)

theorem missing_source_font_witness:
  "\<not> existsSync (font_source (sample_world\<lparr>font_source := None\<rparr>)) \<and>
   exit_code (outcome (run sample_engine {} (sample_world\<lparr>font_source := None\<rparr>))) = 1 \<and>
   final (run sample_engine {} (sample_world\<lparr>font_source := None\<rparr>)) =
     sample_world\<lparr>font_source := None\<rparr> \<and>
   engine_calls (run sample_engine {} (sample_world\<lparr>font_source := None\<rparr>)) = []"
proof -
  have h: "\<not> existsSync (font_source (sample_world\<lparr>font_source := None\<rparr>))"
    by (simp add: existsSync_def)
  from missing_source_font [OF h, of sample_engine "{}"] h show ?thesis by simp
qed

text \<open>
  Claim C3: if the source font exists and none of the discovered files contains a
  well-formed escape, the extracted text is empty and the run ends with exit status 0
  after the warning, without calling the engine and with every file as it was.
\<close>

theorem no_escapes_exit_zero:
  assumes "existsSync (font_source w)"
    and "getAllFiles_root (src_dir w) = Inr files"
    and "\<forall>p\<in>set files. readFileSync (src_dir w) p = Inr (contents p)"
    and "\<forall>p\<in>set files. escapes (contents p) = {}"
  shows "extractUnicodes (readFileSync (src_dir w)) files = Inr [] \<and>
         run engine denied w =
           \<lparr>outcome = Exit 0, final = w,
            console = [Log Scanning, Log (FoundFiles (length files)), Log Extracting,
                       Log (FoundCharacters 0), Warn NoIconsFound],
            engine_calls = []\<rparr>"
proof -
  have e: "extractUnicodes (readFileSync (src_dir w)) files = Inr []"
    using assms(3,4) by (rule collect_no_escapes)
  with assms(1,2) have "prepare denied w =
      Inl (Exit 0, [Log Scanning, Log (FoundFiles (length files)), Log Extracting,
                    Log (FoundCharacters 0), Warn NoIconsFound])"
    by (simp add: prepare_def)
  with e show ?thesis by (simp add: run_ended)
qed

theorem no_escapes_exit_zero_witness:
  "escapes (0x5C # js ''u{E7 no icon here'') = {} \<and>
   getAllFiles_root (src_dir plain_world) = Inr [[js ''plain.slint'']] \<and>
   exit_code (outcome (run sample_engine {} plain_world)) = 0 \<and>
   final (run sample_engine {} plain_world) = plain_world \<and>
   engine_calls (run sample_engine {} plain_world) = []"
proof -
  have m: "matches (0x5C # js ''u{E7 no icon here'') = []"
    by (simp add: js_def match_at_def hex_digit_def)
  have e: "escapes (0x5C # js ''u{E7 no icon here'') = {}"
    using set_matches [of "0x5C # js ''u{E7 no icon here''"] m by simp
  have f: "existsSync (font_source plain_world)"
    by (simp add: plain_world_def sample_world_def existsSync_def)
  have g: "getAllFiles_root (src_dir plain_world) = Inr [[js ''plain.slint'']]"
    by (simp add: plain_world_def getAllFiles_root_def endsWith_def js_def)
  have r: "\<forall>p\<in>set [[js ''plain.slint'']].
      readFileSync (src_dir plain_world) p = Inr (0x5C # js ''u{E7 no icon here'')"
    by (simp add: plain_world_def readFileSync_def)
  have n: "\<forall>p\<in>set [[js ''plain.slint'']]. escapes (0x5C # js ''u{E7 no icon here'') = {}"
    using e by simp
  from no_escapes_exit_zero [OF f g r n, of sample_engine "{}"] e g show ?thesis by simp
qed

text \<open>
  Claim C9: a run that reaches the subsetting step applies the engine to the
  configuration with hinting disabled, the source font as source, the temporary directory
  as destination, and as text the concatenation of the set that extraction built from the
  discovered files, in a world where the temporary directory exists. The rest of the run
  is the callback on what the engine returned for that configuration, and the run depends
  on the engine in no other way.
\<close>

theorem engine_invocation:
  assumes "prepare denied w = Inr (text, w1, out)"
  shows "run engine denied w =
           (case engine \<lparr>cfg_src = FONT_SOURCE, cfg_text = text, cfg_hinting = False,
                          cfg_dest = TEMP_DIR\<rparr> w1 of
              (err, w2) \<Rightarrow>
                (case callback denied err w2 of
                   (status, w3, out') \<Rightarrow>
                     \<lparr>outcome = status, final = w3, console = out @ out',
                      engine_calls = [\<lparr>cfg_src = FONT_SOURCE, cfg_text = text,
                                       cfg_hinting = False, cfg_dest = TEMP_DIR\<rparr>]\<rparr>)) \<and>
         engine_calls (run engine denied w) =
           [\<lparr>cfg_src = FONT_SOURCE, cfg_text = text, cfg_hinting = False, cfg_dest = TEMP_DIR\<rparr>] \<and>
         (\<exists>files us. getAllFiles_root (src_dir w) = Inr files \<and>
            collectUnicodes (readFileSync (src_dir w)) files = Inr us \<and>
            text = concat us) \<and>
         existsSync (temp_dir w1) \<and>
         (\<forall>engine'.
            engine' \<lparr>cfg_src = FONT_SOURCE, cfg_text = text, cfg_hinting = False,
                     cfg_dest = TEMP_DIR\<rparr> w1 =
            engine \<lparr>cfg_src = FONT_SOURCE, cfg_text = text, cfg_hinting = False,
                    cfg_dest = TEMP_DIR\<rparr> w1 \<longrightarrow>
            run engine' denied w = run engine denied w)"
proof (intro conjI allI impI)
  show "run engine denied w =
      (case engine \<lparr>cfg_src = FONT_SOURCE, cfg_text = text, cfg_hinting = False,
                     cfg_dest = TEMP_DIR\<rparr> w1 of
         (err, w2) \<Rightarrow>
           (case callback denied err w2 of
              (status, w3, out') \<Rightarrow>
                \<lparr>outcome = status, final = w3, console = out @ out',
                 engine_calls = [\<lparr>cfg_src = FONT_SOURCE, cfg_text = text,
                                  cfg_hinting = False, cfg_dest = TEMP_DIR\<rparr>]\<rparr>))"
    using assms by (simp add: run_def fontmin_config_def)
next
  show "engine_calls (run engine denied w) =
      [\<lparr>cfg_src = FONT_SOURCE, cfg_text = text, cfg_hinting = False, cfg_dest = TEMP_DIR\<rparr>]"
    using assms by (simp add: prepare_ended_or_subsetting fontmin_config_def)
next
  from prepare_Inr(2) [OF assms] obtain files
    where f: "getAllFiles_root (src_dir w) = Inr files"
      and x: "extractUnicodes (readFileSync (src_dir w)) files = Inr text"
    by blast
  from x obtain us where "collectUnicodes (readFileSync (src_dir w)) files = Inr us"
    "text = concat us"
    by (auto simp: extractUnicodes_def split: sum.splits)
  with f show "\<exists>files us. getAllFiles_root (src_dir w) = Inr files \<and>
      collectUnicodes (readFileSync (src_dir w)) files = Inr us \<and> text = concat us"
    by blast
next
  show "existsSync (temp_dir w1)"
    using prepare_Inr(4) [OF assms] by (rule ensure_temp_dir_Inr(1))
next
  fix engine'
  assume "engine' \<lparr>cfg_src = FONT_SOURCE, cfg_text = text, cfg_hinting = False,
                     cfg_dest = TEMP_DIR\<rparr> w1 =
          engine \<lparr>cfg_src = FONT_SOURCE, cfg_text = text, cfg_hinting = False,
                    cfg_dest = TEMP_DIR\<rparr> w1"
  then have "engine' (fontmin_config text) w1 = engine (fontmin_config text) w1"
    by (simp only: fontmin_config_def)
  with assms show "run engine' denied w = run engine denied w"
    by (rule run_engine_cong)
qed

text \<open>
  On the sample world the engine is applied to an empty temporary directory; the file it
  writes there is the one the run publishes.
\<close>

theorem engine_invocation_witness:
  "sample_engine \<lparr>cfg_src = FONT_SOURCE, cfg_text = [0xE700, 0xD83D, 0xDE00],
                   cfg_hinting = False, cfg_dest = TEMP_DIR\<rparr>
       (sample_world\<lparr>temp_dir := Some (Directory [])\<rparr>) =
     (None, sample_world\<lparr>temp_dir :=
        Some (Directory [(generated_name, Regular (js ''subset''))])\<rparr>) \<and>
   run sample_engine {} sample_world =
     (case callback {} None
        (sample_world\<lparr>temp_dir :=
           Some (Directory [(generated_name, Regular (js ''subset''))])\<rparr>) of
        (status, w3, out') \<Rightarrow>
          \<lparr>outcome = status, final = w3,
           console = [Log Scanning, Log (FoundFiles 2), Log Extracting,
                      Log (FoundCharacters 3), Log Subsetting] @ out',
           engine_calls = [\<lparr>cfg_src = FONT_SOURCE, cfg_text = [0xE700, 0xD83D, 0xDE00],
                            cfg_hinting = False, cfg_dest = TEMP_DIR\<rparr>]\<rparr>) \<and>
   target_file (final (run sample_engine {} sample_world)) = Some (Regular (js ''subset'')) \<and>
   existsSync (temp_dir (sample_world\<lparr>temp_dir := Some (Directory [])\<rparr>))"
proof -
  note e = engine_invocation [where engine = sample_engine, OF prepare_sample_world]
  have a: "sample_engine \<lparr>cfg_src = FONT_SOURCE, cfg_text = [0xE700, 0xD83D, 0xDE00],
                   cfg_hinting = False, cfg_dest = TEMP_DIR\<rparr>
       (sample_world\<lparr>temp_dir := Some (Directory [])\<rparr>) =
     (None, sample_world\<lparr>temp_dir :=
        Some (Directory [(generated_name, Regular (js ''subset''))])\<rparr>)"
    by (rule sample_engine_fresh)
  from e [THEN conjunct1] a
  have b: "run sample_engine {} sample_world =
     (case callback {} None
        (sample_world\<lparr>temp_dir :=
           Some (Directory [(generated_name, Regular (js ''subset''))])\<rparr>) of
        (status, w3, out') \<Rightarrow>
          \<lparr>outcome = status, final = w3,
           console = [Log Scanning, Log (FoundFiles 2), Log Extracting,
                      Log (FoundCharacters 3), Log Subsetting] @ out',
           engine_calls = [\<lparr>cfg_src = FONT_SOURCE, cfg_text = [0xE700, 0xD83D, 0xDE00],
                            cfg_hinting = False, cfg_dest = TEMP_DIR\<rparr>]\<rparr>)"
    by simp
  have c: "target_file (final (run sample_engine {} sample_world)) = Some (Regular (js ''subset''))"
    by (simp add: sample_run)
  have d: "existsSync (temp_dir (sample_world\<lparr>temp_dir := Some (Directory [])\<rparr>))"
    by (rule e [THEN conjunct2, THEN conjunct2, THEN conjunct2, THEN conjunct1])
  from a b c d show ?thesis by (intro conjI)
qed

text \<open>
  Claim C4 asks for exit status 1 when the engine reports no error and its output file is
  not in the temporary directory. The script does log the error and does leave the
  published file alone, but the branch at lines 120-122 returns without the
  \<open>process.exit(1)\<close> that its other two failure paths call (lines 14 and 91), so the
  process runs to completion and ends with status 0. Evaluated on the sample world with an
  engine that reports success and writes nothing:
\<close>

theorem missing_output_exits_zero:
  "idle_engine (fontmin_config [0xE700, 0xD83D, 0xDE00])
       (sample_world\<lparr>temp_dir := Some (Directory [])\<rparr>) =
     (None, sample_world\<lparr>temp_dir := Some (Directory [])\<rparr>) \<and>
   generatedFile (sample_world\<lparr>temp_dir := Some (Directory [])\<rparr>) = None \<and>
   engine_calls (run idle_engine {} sample_world) = [fontmin_config [0xE700, 0xD83D, 0xDE00]] \<and>
   last (console (run idle_engine {} sample_world)) = Error ExpectedOutputNotFound \<and>
   target_file (final (run idle_engine {} sample_world)) = target_file sample_world \<and>
   outcome (run idle_engine {} sample_world) = Exit 0 \<and>
   exit_code (outcome (run idle_engine {} sample_world)) = 0"
  by (simp add: idle_run idle_engine_def generatedFile_def)

text \<open>
  Claim C6, as the code has it. Let the engine succeed and leave the temporary directory
  with its output file as the only entry, that file being no larger than the source font;
  let the source font be a regular file, the published path not be a directory, and the
  operating system refuse none of the publishing calls. Then after the run the published
  file exists and is a copy of the engine's output, its size is at most the size of the
  source font, the temporary file and the temporary directory are gone, and the exit
  status is 0.
\<close>

theorem publish_success:
  assumes "prepare denied w = Inr (text, w1, out)"
    and "engine (fontmin_config text) w1 = (None, w2)"
    and "temp_dir w2 = Some (Directory [(generated_name, Regular g)])"
    and "font_source w2 = Some (Regular s)"
    and "length g \<le> length s"
    and "\<forall>entries. target_file w2 \<noteq> Some (Directory entries)"
    and "denied \<inter> {UnlinkTarget, CopyFile, UnlinkGenerated, RmdirTemp, StatSource, StatTarget} = {}"
  shows "outcome (run engine denied w) = Exit 0 \<and>
         target_file (final (run engine denied w)) = Some (Regular g) \<and>
         (\<exists>published source.
            target_file (final (run engine denied w)) = Some published \<and>
            font_source (final (run engine denied w)) = Some source \<and>
            node_size published \<le> node_size source) \<and>
         temp_dir (final (run engine denied w)) = None \<and>
         generatedFile (final (run engine denied w)) = None"
proof -
  from run_published [where engine = engine, OF assms(1,2,3,6,4,7)]
  have r: "run engine denied w =
      \<lparr>outcome = Exit 0, final = w2\<lparr>target_file := Some (Regular g), temp_dir := None\<rparr>,
       console = out @ [Log SuccessfullyGenerated, Log (OriginalSize (node_size (Regular s))),
                        Log (NewSize (length g)), Log Reduction],
       engine_calls = [fontmin_config text]\<rparr>" .
  have "node_size (Regular g) \<le> node_size (Regular s)"
    using assms(5) by simp
  with r assms(4) show ?thesis
    by (simp add: generatedFile_def)
qed

theorem publish_success_witness:
  "sample_engine (fontmin_config [0xE700, 0xD83D, 0xDE00])
       (sample_world\<lparr>temp_dir := Some (Directory [])\<rparr>) =
     (None, sample_world\<lparr>temp_dir :=
        Some (Directory [(generated_name, Regular (js ''subset''))])\<rparr>) \<and>
   length (js ''subset'') = 6 \<and> length (js ''0123456789'') = 10 \<and>
   outcome (run sample_engine {} sample_world) = Exit 0 \<and>
   target_file (final (run sample_engine {} sample_world)) = Some (Regular (js ''subset'')) \<and>
   font_source (final (run sample_engine {} sample_world)) = Some (Regular (js ''0123456789'')) \<and>
   temp_dir (final (run sample_engine {} sample_world)) = None"
proof -
  let ?w2 = "sample_world\<lparr>temp_dir := Some (Directory [(generated_name, Regular (js ''subset''))])\<rparr>"
  have t: "temp_dir ?w2 = Some (Directory [(generated_name, Regular (js ''subset''))])" by simp
  have f: "font_source ?w2 = Some (Regular (js ''0123456789''))" by (simp add: sample_world_def)
  have l: "length (js ''subset'') \<le> length (js ''0123456789'')" by (simp add: js_def)
  have n: "\<forall>entries. target_file ?w2 \<noteq> Some (Directory entries)" by (simp add: sample_world_def)
  have d: "{} \<inter> {UnlinkTarget, CopyFile, UnlinkGenerated, RmdirTemp, StatSource, StatTarget} = {}"
    by simp
  from publish_success [where engine = sample_engine,
      OF prepare_sample_world sample_engine_fresh t f l n d]
  have "outcome (run sample_engine {} sample_world) = Exit 0"
    "target_file (final (run sample_engine {} sample_world)) = Some (Regular (js ''subset''))"
    "temp_dir (final (run sample_engine {} sample_world)) = None"
    by simp_all
  moreover have "font_source (final (run sample_engine {} sample_world)) =
      Some (Regular (js ''0123456789''))"
  proof -
    have "font_source (final (run sample_engine {} sample_world)) = font_source sample_world"
      by (simp add: sample_run)
    then show ?thesis by (simp add: sample_world_def)
  qed
  moreover have "length (js ''subset'') = 6" "length (js ''0123456789'') = 10"
    by (simp_all add: js_def)
  ultimately show ?thesis using sample_engine_fresh by simp
qed

text \<open>
  Claim C6 as stated fails in two ways. With another file already in the temporary
  directory, the engine succeeds and produces its output, the output is published, but
  \<open>fs.rmdirSync\<close> throws \<open>ENOTEMPTY\<close> and the temporary directory remains. And the script
  publishes whatever the engine wrote, without comparing sizes: an engine that succeeds
  with an output of 16 units from a source font of 10 leaves a published file larger than
  the source font.
\<close>

theorem publish_counterexample:
  "sample_engine (fontmin_config [0xE700, 0xD83D, 0xDE00]) leftover_world =
     (None, leftover_world\<lparr>temp_dir := Some (Directory [(js ''leftover.bin'', Regular []),
                                                      (generated_name, Regular (js ''subset''))])\<rparr>) \<and>
   engine_calls (run sample_engine {} leftover_world) = [fontmin_config [0xE700, 0xD83D, 0xDE00]] \<and>
   outcome (run sample_engine {} leftover_world) = Exit 0 \<and>
   target_file (final (run sample_engine {} leftover_world)) = Some (Regular (js ''subset'')) \<and>
   temp_dir (final (run sample_engine {} leftover_world)) =
     Some (Directory [(js ''leftover.bin'', Regular [])]) \<and>
   last (console (run sample_engine {} leftover_world)) = Error (ErrorMovingFile ENOTEMPTY) \<and>
   large_engine (fontmin_config [0xE700, 0xD83D, 0xDE00])
       (sample_world\<lparr>temp_dir := Some (Directory [])\<rparr>) =
     (None, sample_world\<lparr>temp_dir :=
        Some (Directory [(generated_name, Regular (js ''0123456789abcdef''))])\<rparr>) \<and>
   engine_calls (run large_engine {} sample_world) = [fontmin_config [0xE700, 0xD83D, 0xDE00]] \<and>
   outcome (run large_engine {} sample_world) = Exit 0 \<and>
   target_file (final (run large_engine {} sample_world)) =
     Some (Regular (js ''0123456789abcdef'')) \<and>
   font_source (final (run large_engine {} sample_world)) = Some (Regular (js ''0123456789'')) \<and>
   node_size (Regular (js ''0123456789'')) < node_size (Regular (js ''0123456789abcdef''))"
proof -
  have "node_size (Regular (js ''0123456789'')) < node_size (Regular (js ''0123456789abcdef''))"
    by (simp add: js_def)
  moreover have "font_source (final (run large_engine {} sample_world)) =
      Some (Regular (js ''0123456789''))"
  proof -
    have "font_source (final (run large_engine {} sample_world)) = font_source sample_world"
      by (simp add: large_run)
    then show ?thesis by (simp add: sample_world_def)
  qed
  moreover have "temp_dir (final (run sample_engine {} leftover_world)) =
      Some (Directory [(js ''leftover.bin'', Regular [])])"
  proof -
    have "temp_dir (final (run sample_engine {} leftover_world)) = temp_dir leftover_world"
      by (simp add: leftover_run(2))
    then show ?thesis by (simp add: leftover_world_def)
  qed
  ultimately show ?thesis
    using leftover_run(1) large_engine_fresh by (simp add: leftover_run(2) large_run)
qed

text \<open>
  Claim C7: when the engine has succeeded and its output file is present, an exception
  thrown anywhere in the \<open>try\<close> body is caught and printed, and the process still ends
  with exit status 0. If the one that throws is the copy, the published file does not
  exist any more (the previous one was already deleted) and the temporary directory with
  the engine's output is left as the engine made it.
\<close>

theorem publish_failure_swallowed:
  assumes "prepare denied w = Inr (text, w1, out)"
    and "engine (fontmin_config text) w1 = (None, w2)"
    and "existsSync (generatedFile w2)"
  shows "(\<forall>e w3 out'. try_body denied w2 = (Some e, w3, out') \<longrightarrow>
            run engine denied w =
              \<lparr>outcome = Exit 0, final = w3, console = out @ out' @ [Error (ErrorMovingFile e)],
               engine_calls = [fontmin_config text]\<rparr>) \<and>
         (\<forall>wc e. clear_target denied w2 = Inr wc \<longrightarrow> copyFileSync denied wc = Inl e \<longrightarrow>
            outcome (run engine denied w) = Exit 0 \<and>
            last (console (run engine denied w)) = Error (ErrorMovingFile e) \<and>
            target_file (final (run engine denied w)) = None \<and>
            temp_dir (final (run engine denied w)) = temp_dir w2 \<and>
            generatedFile (final (run engine denied w)) = generatedFile w2)"
proof (intro conjI allI impI)
  fix e w3 out'
  assume "try_body denied w2 = (Some e, w3, out')"
  with assms(3) have "callback denied None w2 = (Exit 0, w3, out' @ [Error (ErrorMovingFile e)])"
    by (rule callback_caught)
  with assms(1,2) show "run engine denied w =
      \<lparr>outcome = Exit 0, final = w3, console = out @ out' @ [Error (ErrorMovingFile e)],
       engine_calls = [fontmin_config text]\<rparr>"
    by (rule run_subsetting [where engine = engine])
next
  fix wc e
  assume c: "clear_target denied w2 = Inr wc" and f: "copyFileSync denied wc = Inl e"
  from c have wc: "wc = w2\<lparr>target_file := None\<rparr>" by (rule clear_target_Inr)
  from c f have "try_body denied w2 = (Some e, wc, [])" by (rule try_body_copy_fails)
  with assms(3) have "callback denied None w2 = (Exit 0, wc, [] @ [Error (ErrorMovingFile e)])"
    by (rule callback_caught)
  with assms(1,2) have r: "run engine denied w =
      \<lparr>outcome = Exit 0, final = wc, console = out @ [] @ [Error (ErrorMovingFile e)],
       engine_calls = [fontmin_config text]\<rparr>"
    by (rule run_subsetting [where engine = engine])
  from r show "outcome (run engine denied w) = Exit 0" by simp
  from r show "last (console (run engine denied w)) = Error (ErrorMovingFile e)" by simp
  from r wc show "target_file (final (run engine denied w)) = None" by simp
  from r wc show "temp_dir (final (run engine denied w)) = temp_dir w2" by simp
  from r wc show "generatedFile (final (run engine denied w)) = generatedFile w2"
    by (simp add: generatedFile_def)
qed

theorem publish_failure_swallowed_witness:
  "target_file sample_world = Some (Regular (js ''previous'')) \<and>
   copyFileSync {CopyFile}
     (sample_world\<lparr>temp_dir := Some (Directory [(generated_name, Regular (js ''subset''))]),
                    target_file := None\<rparr>) = Inl EACCES \<and>
   outcome (run sample_engine {CopyFile} sample_world) = Exit 0 \<and>
   last (console (run sample_engine {CopyFile} sample_world)) = Error (ErrorMovingFile EACCES) \<and>
   target_file (final (run sample_engine {CopyFile} sample_world)) = None \<and>
   temp_dir (final (run sample_engine {CopyFile} sample_world)) =
     Some (Directory [(generated_name, Regular (js ''subset''))])"
proof -
  let ?w2 = "sample_world\<lparr>temp_dir := Some (Directory [(generated_name, Regular (js ''subset''))])\<rparr>"
  have g: "existsSync (generatedFile ?w2)"
    by (simp add: existsSync_def generatedFile_def)
  have c: "clear_target {CopyFile} ?w2 = Inr (?w2\<lparr>target_file := None\<rparr>)"
    by (simp add: clear_target_def existsSync_def unlinkSync_target_def sample_world_def)
  have f: "copyFileSync {CopyFile} (?w2\<lparr>target_file := None\<rparr>) = Inl EACCES"
    by (simp add: copyFileSync_def)
  have t: "target_file sample_world = Some (Regular (js ''previous''))"
    by (simp add: sample_world_def)
  from publish_failure_swallowed [where engine = sample_engine,
      OF prepare_sample_world_denied sample_engine_fresh g]
  have "\<forall>wc e. clear_target {CopyFile} ?w2 = Inr wc \<longrightarrow> copyFileSync {CopyFile} wc = Inl e \<longrightarrow>
      outcome (run sample_engine {CopyFile} sample_world) = Exit 0 \<and>
      last (console (run sample_engine {CopyFile} sample_world)) = Error (ErrorMovingFile e) \<and>
      target_file (final (run sample_engine {CopyFile} sample_world)) = None \<and>
      temp_dir (final (run sample_engine {CopyFile} sample_world)) = temp_dir ?w2 \<and>
      generatedFile (final (run sample_engine {CopyFile} sample_world)) = generatedFile ?w2"
    by (rule conjunct2)
  with c f t show ?thesis by auto
qed

end
